theory Spec2Isabelle
  imports Main
begin

section \<open>Website monitor bot (b.py): strings and library calls\<close>

text \<open>
  Strings are lists of 8-bit characters and are read as ASCII text. The third-party
  calls the program makes (the HTML parser, \<open>urljoin\<close>, \<open>urlparse\<close>, the digests) are
  not part of the program; they are collected in a record of functions and every
  theorem below holds for any choice of them. The parser and the two URL functions
  can raise (\<open>urljoin\<close> and \<open>urlparse\<close> raise \<open>ValueError\<close> on a reference such as
  \<open>//[x.pdf\<close>); \<open>None\<close> stands for a raised exception.
\<close>

type_synonym attrs = "(string \<times> string) list"

record tag =
  tag_name :: string
  tag_attrs :: attrs

record library =
  bs4_tags :: "string \<Rightarrow> tag list option"
  urljoin :: "string \<Rightarrow> string \<Rightarrow> string option"
  urlparse_path :: "string \<Rightarrow> string option"
  sha256_hex :: "string \<Rightarrow> string"
  md5_hex :: "string \<Rightarrow> string"

text \<open>\<open>str.lower\<close> on ASCII letters.\<close>

definition lower_char :: "char \<Rightarrow> char" where
  "lower_char c =
     (let n = (of_char c :: nat) in if 65 \<le> n \<and> n \<le> 90 then char_of (n + 32) else c)"

definition lower :: "string \<Rightarrow> string" where
  "lower s = map lower_char s"

text \<open>\<open>s.endswith(e)\<close> and \<open>sub in s\<close>.\<close>

definition endswith :: "string \<Rightarrow> string \<Rightarrow> bool" where
  "endswith s e = (length e \<le> length s \<and> drop (length s - length e) s = e)"

fun contains :: "string \<Rightarrow> string \<Rightarrow> bool" where
  "contains sub [] = (sub = [])"
| "contains sub (c # cs) = (take (length sub) (c # cs) = sub \<or> contains sub cs)"

text \<open>\<open>os.path.basename\<close>: what follows the last slash.\<close>

definition basename :: "string \<Rightarrow> string" where
  "basename p = rev (takeWhile (\<lambda>c. c \<noteq> CHR ''/'') (rev p))"

text \<open>
  \<open>os.path.splitext\<close>: the extension starts at the last dot of the last path
  component; a component whose characters before that dot are all dots (a leading
  dot included) has no extension.
\<close>

definition splitext :: "string \<Rightarrow> string \<times> string" where
  "splitext p =
     (let b = basename p in
      if CHR ''.'' \<notin> set b then (p, [])
      else
        let e = CHR ''.'' # rev (takeWhile (\<lambda>c. c \<noteq> CHR ''.'') (rev b));
            stem = take (length b - length e) b
        in if list_all (\<lambda>c. c = CHR ''.'') stem then (p, [])
           else (take (length p - length e) p, e))"

text \<open>Python's \<open>a or d\<close> where \<open>a\<close> is a string or \<open>None\<close>.\<close>

definition py_or :: "string option \<Rightarrow> string option \<Rightarrow> string option" where
  "py_or a b = (case a of None \<Rightarrow> b | Some s \<Rightarrow> if s = [] then b else Some s)"

definition or_str :: "string option \<Rightarrow> string \<Rightarrow> string" where
  "or_str a d = (case a of None \<Rightarrow> d | Some s \<Rightarrow> if s = [] then d else s)"

text \<open>
  \<open>int(s)\<close> on a string: surrounding whitespace, an optional sign, decimal digits
  with single underscores between digits; anything else raises \<open>ValueError\<close>, and so
  does a string of more than 4300 digits (the default limit of CPython 3.11 and
  later). \<open>int\<close> skips the six characters tab to carriage return and space;
  \<open>str.split\<close> and \<open>str.isspace\<close> also count the four separators 28 to 31. Only
  the ASCII digits are covered: the decimal digits of other scripts, which \<open>int\<close>
  also accepts, do not occur in strings read as ASCII.
\<close>

definition is_space :: "char \<Rightarrow> bool" where
  "is_space c = (let n = (of_char c :: nat) in (9 \<le> n \<and> n \<le> 13) \<or> (28 \<le> n \<and> n \<le> 32))"

definition is_int_space :: "char \<Rightarrow> bool" where
  "is_int_space c = (let n = (of_char c :: nat) in (9 \<le> n \<and> n \<le> 13) \<or> n = 32)"

definition MAX_STR_DIGITS :: nat where
  "MAX_STR_DIGITS = 4300"

definition is_digit :: "char \<Rightarrow> bool" where
  "is_digit c = (let n = (of_char c :: nat) in 48 \<le> n \<and> n \<le> 57)"

definition strip :: "string \<Rightarrow> string" where
  "strip s = dropWhile is_int_space (rev (dropWhile is_int_space (rev s)))"

fun no_double_underscore :: "string \<Rightarrow> bool" where
  "no_double_underscore (a # b # r) =
     (\<not> (a = CHR ''_'' \<and> b = CHR ''_'') \<and> no_double_underscore (b # r))"
| "no_double_underscore _ = True"

definition digits_ok :: "string \<Rightarrow> bool" where
  "digits_ok s =
     (s \<noteq> [] \<and> is_digit (hd s) \<and> is_digit (last s)
      \<and> list_all (\<lambda>c. is_digit c \<or> c = CHR ''_'') s \<and> no_double_underscore s)"

definition digits_value :: "string \<Rightarrow> int" where
  "digits_value s = foldl (\<lambda>a c. 10 * a + (int (of_char c) - 48)) 0 (filter is_digit s)"

definition py_int :: "string \<Rightarrow> int option" where
  "py_int s =
     (let t = strip s;
          neg = (t \<noteq> [] \<and> hd t = CHR ''-'');
          body = (if t \<noteq> [] \<and> (hd t = CHR ''-'' \<or> hd t = CHR ''+'') then tl t else t)
      in if digits_ok body \<and> length (filter is_digit body) \<le> MAX_STR_DIGITS
         then Some (if neg then - digits_value body else digits_value body)
         else None)"

section \<open>Configuration\<close>

definition MAX_FILE_SIZE :: int where
  "MAX_FILE_SIZE = 45 * 1024 * 1024"

definition DOCUMENT_EXTS :: "string list" where
  "DOCUMENT_EXTS = [''.pdf'', ''.doc'', ''.docx'', ''.xls'', ''.xlsx'', ''.ppt'', ''.pptx'', ''.txt'']"

definition IMAGE_EXTS :: "string list" where
  "IMAGE_EXTS = [''.jpg'', ''.jpeg'', ''.png'', ''.gif'', ''.webp'', ''.bmp'']"

definition AUDIO_EXTS :: "string list" where
  "AUDIO_EXTS = [''.mp3'', ''.wav'', ''.ogg'']"

definition VIDEO_EXTS :: "string list" where
  "VIDEO_EXTS = [''.mp4'', ''.mov'', ''.avi'', ''.mkv'']"

definition ALLOWED_EXTS :: "string list" where
  "ALLOWED_EXTS = DOCUMENT_EXTS @ IMAGE_EXTS @ AUDIO_EXTS @ VIDEO_EXTS"

section \<open>HTML parsing: \<open>extract_files\<close>\<close>

record extracted_file =
  file_name :: string
  file_url :: string
  file_type :: string

definition tag_get :: "tag \<Rightarrow> string \<Rightarrow> string option" where
  "tag_get t k = map_of (tag_attrs t) k"

definition file_type_of :: "string \<Rightarrow> string" where
  "file_type_of u =
     (let ext = lower (snd (splitext u)) in
      if ext \<in> set IMAGE_EXTS then ''image''
      else if ext \<in> set AUDIO_EXTS then ''audio''
      else if ext \<in> set VIDEO_EXTS then ''video''
      else ''document'')"

text \<open>
  The body of the loop over the tags found: the tag is skipped (\<open>continue\<close>), a file
  is appended, or \<open>urljoin\<close> raises, which ends \<open>extract_files\<close> with the exception.
\<close>

datatype tag_result = Raised | Skipped | Kept extracted_file

definition extract_tag :: "library \<Rightarrow> string \<Rightarrow> tag \<Rightarrow> tag_result" where
  "extract_tag L base_url t =
     (case py_or (tag_get t ''href'') (tag_get t ''src'') of
        None \<Rightarrow> Skipped
      | Some r \<Rightarrow>
          if r = [] then Skipped
          else
            (case urljoin L base_url r of
               None \<Rightarrow> Raised
             | Some u \<Rightarrow>
                 if \<not> list_ex (\<lambda>ext. endswith (lower u) ext) ALLOWED_EXTS then Skipped
                 else Kept \<lparr> file_name = or_str (tag_get t ''alt'')
                                            (or_str (tag_get t ''title'') (basename u)),
                              file_url = u,
                              file_type = file_type_of u \<rparr>))"

definition find_all :: "tag list \<Rightarrow> string list \<Rightarrow> tag list" where
  "find_all soup names = filter (\<lambda>t. tag_name t \<in> set names) soup"

text \<open>The result is \<open>None\<close> when the parser or a \<open>urljoin\<close> in the loop raised.\<close>

fun extract_loop :: "library \<Rightarrow> string \<Rightarrow> tag list \<Rightarrow> extracted_file list option" where
  "extract_loop L base_url [] = Some []"
| "extract_loop L base_url (t # ts) =
     (case extract_tag L base_url t of
        Raised \<Rightarrow> None
      | Skipped \<Rightarrow> extract_loop L base_url ts
      | Kept f \<Rightarrow> map_option (\<lambda>fs. f # fs) (extract_loop L base_url ts))"

definition extract_files :: "library \<Rightarrow> string \<Rightarrow> string \<Rightarrow> extracted_file list option" where
  "extract_files L html base_url =
     (case bs4_tags L html of
        None \<Rightarrow> None
      | Some soup \<Rightarrow>
          extract_loop L base_url
            (find_all soup [''a'', ''img'', ''audio'', ''video'', ''source'']))"

section \<open>The outside world\<close>

text \<open>
  What the network, the file system, the scheduler and the chat transport answer is
  not decided by the program. A \<open>world\<close> fixes these answers for one run; \<open>None\<close> or
  \<open>False\<close> means that the call raised an exception, and the same call with the same
  arguments gets the same answer throughout the run.
  \<^item> \<open>requests_get\<close>: the page request of \<open>check_single_website\<close>; \<open>content\<close> is the
    body as bytes, \<open>text_of\<close> the decoded body.
  \<^item> \<open>session_get\<close>: the request of \<open>download_file\<close>; \<open>body\<close> is what \<open>response.read()\<close>
    gives, \<open>None\<close> when reading or writing the data raises. Header names are looked
    up without regard to case, and the first header of a name is the one read.
  \<^item> \<open>open_ok\<close>, \<open>getsize\<close>, \<open>remove_ok\<close>: \<open>aiofiles.open\<close>, \<open>os.path.getsize\<close> (the size
    reported while the handle is still open) and \<open>os.remove\<close> for a file name.
  \<^item> \<open>save_ok\<close>: whether \<open>save_json\<close> can write the user data file; a failed write is
    taken to leave the file as it was.
  \<^item> \<open>add_job_ok\<close>: whether building the trigger and \<open>scheduler.add_job\<close> succeed for
    a job identifier, an interval and the night flag.
  \<^item> \<open>send_document_ok\<close>, \<open>send_message_ok\<close>: the two calls on the chat client.
    Replies to a command (\<open>message.reply_text\<close>) are taken to succeed.

  The effects of a run are recorded as a list of events in the order in which they
  happen: \<open>Extract\<close> for a call of \<open>extract_files\<close> that returned, \<open>SaveJson\<close> for a completed write
  of the user data file, \<open>HttpGet\<close> for the request of a download, \<open>WriteFile\<close> for a
  file opened for writing, \<open>RemoveFile\<close>, the two messages to the chat, and \<open>LogError\<close>
  for an entry written by an exception handler.
\<close>

record page =
  status_code :: int
  content :: string
  text_of :: string

record response =
  status :: int
  headers :: attrs
  body :: "string option"

record world =
  requests_get :: "string \<Rightarrow> page option"
  session_get :: "string \<Rightarrow> response option"
  open_ok :: "string \<Rightarrow> bool"
  getsize :: "string \<Rightarrow> int option"
  remove_ok :: "string \<Rightarrow> bool"
  save_ok :: bool
  add_job_ok :: "string \<Rightarrow> int \<Rightarrow> bool \<Rightarrow> bool"
  send_document_ok :: "int \<Rightarrow> string \<Rightarrow> string \<Rightarrow> bool"
  send_message_ok :: "int \<Rightarrow> string \<Rightarrow> bool"

datatype event =
    Extract
  | SaveJson
  | HttpGet string
  | WriteFile string
  | RemoveFile string
  | SendDocument int string string
  | SendMessage int string
  | LogError string

section \<open>File handling: \<open>download_file\<close>\<close>

text \<open>\<open>re.sub(r'[\\/*?:"<>|]', '', s)\<close>: the nine characters of the class are dropped.\<close>

definition unsafe_chars :: "char list" where
  "unsafe_chars = [CHR 0x5C, CHR ''/'', CHR ''*'', CHR ''?'', CHR '':'', CHR 0x22,
                   CHR ''<'', CHR ''>'', CHR ''|'']"

definition re_sub_unsafe :: "string \<Rightarrow> string" where
  "re_sub_unsafe s = filter (\<lambda>c. c \<notin> set unsafe_chars) s"

definition header :: "response \<Rightarrow> string \<Rightarrow> string option" where
  "header r k = map_of (map (\<lambda>(n, v). (lower n, v)) (headers r)) (lower k)"

text \<open>\<open>int(response.headers.get('Content-Length', 0))\<close>; \<open>None\<close> is \<open>ValueError\<close>.\<close>

definition content_length_of :: "response \<Rightarrow> int option" where
  "content_length_of r =
     (case header r ''Content-Length'' of None \<Rightarrow> Some 0 | Some v \<Rightarrow> py_int v)"

text \<open>The extension and the file name, from the path that \<open>urlparse\<close> returned.\<close>

definition download_ext :: "response \<Rightarrow> string \<Rightarrow> string" where
  "download_ext r path =
     (let ext = lower (snd (splitext path));
          content_type = (case header r ''Content-Type'' of None \<Rightarrow> [] | Some v \<Rightarrow> v)
      in if ext \<noteq> [] then ext
         else if contains ''image'' content_type then ''.jpg''
         else if contains ''audio'' content_type then ''.mp3''
         else if contains ''video'' content_type then ''.mp4''
         else ''.bin'')"

definition download_filename :: "response \<Rightarrow> string \<Rightarrow> string option \<Rightarrow> string" where
  "download_filename r path custom_name =
     re_sub_unsafe (or_str custom_name (basename path) @ download_ext r path)"

text \<open>
  The result is the value returned (\<open>None\<close> or the file name) together with the
  events of the call. Every exception is caught by the handler at the end of the
  function, which logs and returns \<open>None\<close>.
\<close>

definition download_failed :: event where
  "download_failed = LogError ''Download failed''"

definition download_file ::
  "library \<Rightarrow> world \<Rightarrow> string \<Rightarrow> string option \<Rightarrow> string option \<times> event list" where
  "download_file L W u custom_name =
     (case session_get W u of
        None \<Rightarrow> (None, [HttpGet u, download_failed])
      | Some r \<Rightarrow>
          if status r \<noteq> 200 then (None, [HttpGet u])
          else
            (case content_length_of r of
               None \<Rightarrow> (None, [HttpGet u, download_failed])
             | Some content_length \<Rightarrow>
                 if content_length > MAX_FILE_SIZE then (None, [HttpGet u])
                 else
                   (case urlparse_path L u of
                      None \<Rightarrow> (None, [HttpGet u, download_failed])
                    | Some path \<Rightarrow>
                        let filename = download_filename r path custom_name in
                        if \<not> open_ok W filename then (None, [HttpGet u, download_failed])
                        else
                          (case body r of
                             None \<Rightarrow> (None, [HttpGet u, WriteFile filename, download_failed])
                           | Some data \<Rightarrow>
                               (case getsize W filename of
                                  None \<Rightarrow>
                                    (None, [HttpGet u, WriteFile filename, download_failed])
                                | Some size_on_disk \<Rightarrow>
                                    if size_on_disk > MAX_FILE_SIZE then
                                      (if remove_ok W filename
                                       then (None, [HttpGet u, WriteFile filename,
                                                    RemoveFile filename])
                                       else (None, [HttpGet u, WriteFile filename,
                                                    download_failed]))
                                    else (Some filename, [HttpGet u, WriteFile filename]))))))"

section \<open>Stored state\<close>

text \<open>
  \<open>user_data\<close> maps a chat id to its \<open>tracked_urls\<close> dictionary, which maps a URL to
  the entry written by \<open>track\<close>. The keys are the chat ids themselves rather than
  their decimal strings, and every entry has the four fields \<open>track\<close> writes. The
  state holds the dictionary in memory, the contents of the file written by
  \<open>save_json\<close>, and the scheduler's job table, a job being the arguments of
  \<open>add_job\<close>: the URL and chat passed to \<open>check_single_website\<close>, the minutes of the
  interval trigger, and whether the trigger is restricted to the hours 6 to 22.
\<close>

record tracked =
  hash :: string
  interval :: int
  night_mode :: bool
  files :: "string list"

type_synonym user_data = "int \<Rightarrow> (string \<Rightarrow> tracked option) option"

record job =
  job_url :: string
  job_chat :: int
  job_minutes :: int
  job_night :: bool

record state =
  user_data :: user_data
  user_data_file :: user_data
  jobs :: "string \<Rightarrow> job option"

definition save_json :: "state \<Rightarrow> state" where
  "save_json s = s\<lparr>user_data_file := user_data s\<rparr>"

definition lookup :: "user_data \<Rightarrow> int \<Rightarrow> string \<Rightarrow> tracked option" where
  "lookup d c u = (case d c of None \<Rightarrow> None | Some tracked_urls \<Rightarrow> tracked_urls u)"

section \<open>Website monitoring: \<open>check_single_website\<close>\<close>

text \<open>
  The function returns the state after the run and the events of the run. Its body
  is one \<open>try\<close> block whose handler logs the exception, so every failing call below
  ends the run with the state reached so far and the log entry as last event.
\<close>

fun join :: "string \<Rightarrow> string list \<Rightarrow> string" where
  "join sep [] = []"
| "join sep [x] = x"
| "join sep (x # y # r) = x @ sep @ join sep (y # r)"

definition caption :: "extracted_file \<Rightarrow> string" where
  "caption f = file_name f @ '' ('' @ file_type f @ '')''"

definition monitoring_error :: event where
  "monitoring_error = LogError ''Monitoring error''"

text \<open>
  The loop over \<open>new_files\<close>. The first component is \<open>False\<close> when a call in the loop
  raised, which ends the loop; the second is \<open>summary\<close>.
\<close>

fun send_updates ::
  "library \<Rightarrow> world \<Rightarrow> int \<Rightarrow> string list \<Rightarrow> extracted_file list
     \<Rightarrow> bool \<times> string list \<times> event list" where
  "send_updates L W user_id previous_files [] = (True, [], [])"
| "send_updates L W user_id previous_files (f # fs) =
     (if file_url f \<in> set previous_files then send_updates L W user_id previous_files fs
      else
        (case download_file L W (file_url f) (Some (file_name f)) of
           (None, ev) \<Rightarrow>
             (case send_updates L W user_id previous_files fs of
                (ok, summary, ev') \<Rightarrow> (ok, summary, ev @ ev'))
         | (Some filename, ev) \<Rightarrow>
             if filename = [] then
               (case send_updates L W user_id previous_files fs of
                  (ok, summary, ev') \<Rightarrow> (ok, summary, ev @ ev'))
             else if \<not> send_document_ok W user_id filename (caption f) then (False, [], ev)
             else if \<not> remove_ok W filename then
               (False, [], ev @ [SendDocument user_id filename (caption f)])
             else
               (case send_updates L W user_id previous_files fs of
                  (ok, summary, ev') \<Rightarrow>
                    (ok, caption f # summary,
                     ev @ [SendDocument user_id filename (caption f), RemoveFile filename] @ ev'))))"

definition update_message :: "string \<Rightarrow> string list \<Rightarrow> string" where
  "update_message u summary =
     ''Website updated: '' @ u @ [CHR 0x0A] @ ''New files:'' @ [CHR 0x0A] @ join [CHR 0x0A] summary"

text \<open>What follows the loop: the summary message, or the handler's log entry.\<close>

definition cycle_tail :: "world \<Rightarrow> string \<Rightarrow> int \<Rightarrow> bool \<Rightarrow> string list \<Rightarrow> event list" where
  "cycle_tail W u c ok summary =
     (if \<not> ok then [monitoring_error]
      else if summary = [] then []
      else if send_message_ok W c (update_message u summary)
        then [SendMessage c (update_message u summary)]
      else [monitoring_error])"

definition store_tracked :: "state \<Rightarrow> int \<Rightarrow> string \<Rightarrow> tracked \<Rightarrow> state" where
  "store_tracked s c u t =
     s\<lparr>user_data := (user_data s)
         (c \<mapsto> (case user_data s c of None \<Rightarrow> Map.empty | Some tracked_urls \<Rightarrow> tracked_urls)
                  (u \<mapsto> t))\<rparr>"

definition check_single_website ::
  "library \<Rightarrow> world \<Rightarrow> state \<Rightarrow> string \<Rightarrow> int \<Rightarrow> state \<times> event list" where
  "check_single_website L W s u user_id =
     (case requests_get W u of
        None \<Rightarrow> (s, [monitoring_error])
      | Some p \<Rightarrow>
          if 400 \<le> status_code p \<and> status_code p < 600 then (s, [monitoring_error])
          else
            let current_hash = sha256_hex L (content p) in
            (case lookup (user_data s) user_id u of
               None \<Rightarrow> (s, [])
             | Some tr \<Rightarrow>
                 if current_hash = hash tr then (s, [])
                 else
                   (case extract_files L (text_of p) u of
                      None \<Rightarrow> (s, [monitoring_error])
                    | Some new_files \<Rightarrow>
                        let previous_files = files tr;
                            s1 = store_tracked s user_id u
                                   (tr\<lparr>hash := current_hash,
                                       files := map file_url new_files\<rparr>)
                        in
                        if \<not> save_ok W then (s1, [Extract, monitoring_error])
                        else
                          (case send_updates L W user_id previous_files new_files of
                             (ok, summary, ev) \<Rightarrow>
                               if \<not> ok then
                                 (save_json s1, [Extract, SaveJson] @ ev @ [monitoring_error])
                               else if summary = [] then
                                 (save_json s1, [Extract, SaveJson] @ ev)
                               else if send_message_ok W user_id (update_message u summary)
                               then
                                 (save_json s1,
                                  [Extract, SaveJson] @ ev
                                    @ [SendMessage user_id (update_message u summary)])
                               else
                                 (save_json s1,
                                  [Extract, SaveJson] @ ev @ [monitoring_error])))))"

section \<open>Bot commands: \<open>track\<close> and \<open>untrack\<close>\<close>

record message =
  chat_id :: int
  msg_text :: string

text \<open>
  \<open>str(n)\<close> for an integer and \<open>s.split()\<close>. The commands return the state and the text
  of the reply; the reply of an exception handler is shortened to \<open>Error\<close>.
\<close>

function str_nat :: "nat \<Rightarrow> string" where
  "str_nat n =
     (if n < 10 then [char_of (48 + n)] else str_nat (n div 10) @ [char_of (48 + n mod 10)])"
  by pat_completeness auto
termination
  by (relation "measure id") auto

declare str_nat.simps [simp del]

definition str_int :: "int \<Rightarrow> string" where
  "str_int i = (if i < 0 then CHR ''-'' # str_nat (nat (- i)) else str_nat (nat i))"

fun split_acc :: "string \<Rightarrow> string \<Rightarrow> string list" where
  "split_acc cur [] = (if cur = [] then [] else [rev cur])"
| "split_acc cur (c # cs) =
     (if is_space c then (if cur = [] then split_acc [] cs else rev cur # split_acc [] cs)
      else split_acc (c # cur) cs)"

definition split_ws :: "string \<Rightarrow> string list" where
  "split_ws s = split_acc [] s"

definition job_id :: "library \<Rightarrow> int \<Rightarrow> string \<Rightarrow> string" where
  "job_id L c u = str_int c @ ''_'' @ take 6 (md5_hex L u)"

definition error_reply :: string where
  "error_reply = ''Error''"

definition track :: "library \<Rightarrow> world \<Rightarrow> state \<Rightarrow> message \<Rightarrow> state \<times> string" where
  "track L W s m =
     (case split_ws (msg_text m) of
        (cmd # u # a # rest) \<Rightarrow>
          (case py_int a of
             None \<Rightarrow> (s, error_reply)
           | Some n \<Rightarrow>
               let night = (''night'' \<in> set rest);
                   jid = job_id L (chat_id m) u
               in
               if \<not> add_job_ok W jid n night then (s, error_reply)
               else
                 let s1 = s\<lparr>jobs := (jobs s)
                            (jid \<mapsto> \<lparr>job_url = u, job_chat = chat_id m,
                                      job_minutes = n, job_night = night\<rparr>)\<rparr>;
                     s2 = store_tracked s1 (chat_id m) u
                            \<lparr>hash = [], interval = n, night_mode = night, files = []\<rparr>
                 in
                 if \<not> save_ok W then (s2, error_reply)
                 else (save_json s2,
                       ''Now tracking '' @ u @ '' every '' @ str_int n @ '' minutes''))
      | _ \<Rightarrow> (s, error_reply))"

definition untrack :: "library \<Rightarrow> world \<Rightarrow> state \<Rightarrow> message \<Rightarrow> state \<times> string" where
  "untrack L W s m =
     (case split_ws (msg_text m) of
        (cmd # u # rest) \<Rightarrow>
          (case user_data s (chat_id m) of
             None \<Rightarrow> (s, ''Not tracking '' @ u)
           | Some tracked_urls \<Rightarrow>
               if tracked_urls u = None then (s, ''Not tracking '' @ u)
               else if jobs s (job_id L (chat_id m) u) = None then (s, error_reply)
               else
                 let s1 = s\<lparr>jobs := (jobs s)(job_id L (chat_id m) u := None)\<rparr>;
                     s2 = s1\<lparr>user_data := (user_data s1)(chat_id m \<mapsto> tracked_urls(u := None))\<rparr>
                 in
                 if \<not> save_ok W then (s2, error_reply)
                 else (save_json s2, ''Stopped tracking '' @ u))
      | _ \<Rightarrow> (s, ''Usage: /untrack <url>''))"

section \<open>Properties of a job table\<close>

text \<open>
  Every job is filed under the identifier computed from its own arguments, and every
  tracked target has exactly one job in the table whose arguments are that target.
\<close>

definition jobs_filed_by_id :: "library \<Rightarrow> state \<Rightarrow> bool" where
  "jobs_filed_by_id L s =
     (\<forall>i j. jobs s i = Some j \<longrightarrow> i = job_id L (job_chat j) (job_url j))"

definition exactly_one_job :: "state \<Rightarrow> bool" where
  "exactly_one_job s =
     (\<forall>c u. lookup (user_data s) c u \<noteq> None \<longrightarrow>
        (\<exists>!i. \<exists>j. jobs s i = Some j \<and> job_url j = u \<and> job_chat j = c))"

text \<open>A download that is cut off by one of the two size checks.\<close>

definition exceeds_cap :: "library \<Rightarrow> world \<Rightarrow> string \<Rightarrow> string option \<Rightarrow> bool" where
  "exceeds_cap L W u custom_name =
     (case session_get W u of
        None \<Rightarrow> False
      | Some r \<Rightarrow>
          (case content_length_of r of
             None \<Rightarrow> False
           | Some n \<Rightarrow>
               n > MAX_FILE_SIZE
               \<or> (case urlparse_path L u of
                     None \<Rightarrow> False
                   | Some path \<Rightarrow>
                       (case getsize W (download_filename r path custom_name) of
                          None \<Rightarrow> False
                        | Some size_on_disk \<Rightarrow> size_on_disk > MAX_FILE_SIZE))))"

section \<open>Example runs\<close>

text \<open>
  One tracked page \<open>http://h/\<close> of chat 1. The library answers are the real ones for
  the strings used: the digests are those of \<open>hashlib\<close> for these inputs, the two
  URLs \<open>http://h/p1569\<close> and \<open>http://h/p6288\<close> have MD5 digests with the same first
  six hexadecimal digits, and \<open>urljoin\<close> raises on the reference \<open>//[x.pdf\<close>.
\<close>

definition ex_url :: string where
  "ex_url = ''http://h/''"

definition body1 :: string where
  "body1 = ''<a href=d1.pdf>D1</a>''"

definition body2 :: string where
  "body2 = ''<a href=d1.pdf>D1</a><a href=d2.pdf>D2</a>''"

definition body3 :: string where
  "body3 = ''<p>nothing here</p>''"

definition body5 :: string where
  "body5 = ''<a href=/view?a.pdf>A</a><a href=.pdf>B</a>''"

definition body6 :: string where
  "body6 = ''<a href=//[x.pdf>X</a><a href=d1.pdf>D1</a>''"

definition hash1 :: string where
  "hash1 = ''4c57afbbb9cb3474271540d652acc91ffc36ef675488e2a0d8a8b1483f1eb50b''"

definition link :: "string \<Rightarrow> tag" where
  "link r = \<lparr>tag_name = ''a'', tag_attrs = [(''href'', r)]\<rparr>"

definition element :: "string \<Rightarrow> tag" where
  "element n = \<lparr>tag_name = n, tag_attrs = []\<rparr>"

definition ex_lib :: library where
  "ex_lib =
     \<lparr>bs4_tags = (\<lambda>html.
          if html = body1 then Some [element ''html'', element ''body'', link ''d1.pdf'']
          else if html = body2 then
            Some [element ''html'', element ''body'', link ''d1.pdf'', link ''d2.pdf'']
          else if html = body3 then Some [element ''html'', element ''body'', element ''p'']
          else if html = body5 then
            Some [element ''html'', element ''body'', link ''/view?a.pdf'', link ''.pdf'']
          else if html = body6 then
            Some [element ''html'', element ''body'', link ''//[x.pdf'', link ''d1.pdf'']
          else Some [element ''html'']),
      urljoin = (\<lambda>b r. if r = ''//[x.pdf'' then None
                       else if take 1 r = ''/'' then Some (''http://h'' @ r)
                       else Some (b @ r)),
      urlparse_path = (\<lambda>u. Some (takeWhile (\<lambda>c. c \<noteq> CHR ''?'') (drop 8 u))),
      sha256_hex = (\<lambda>c.
          if c = body1 then
            ''4c57afbbb9cb3474271540d652acc91ffc36ef675488e2a0d8a8b1483f1eb50b''
          else if c = body2 then
            ''1fa7b36fb986fb076b999952c0f4f2fdb63b11ac455c847899e0274a63c2fc02''
          else if c = body3 then
            ''c149adfd2050567b6e852ecb4eb65da17a44e7a24256769590df1660ba55890f''
          else if c = body5 then
            ''e89d16613b2d98a40dbfb69570a0e514cefee37e4fdbd7fee4ffd3517d3769bb''
          else if c = body6 then
            ''d85532fb2f71a2e093bf145d59fb64a1fabc445349862d8cb65447d80f01303a''
          else ''e3b0c44298fc1c149afbf4c8996fb92427ae41e4649b934ca495991b7852b855''),
      md5_hex = (\<lambda>u.
          if u = ''http://h/'' then ''3eb97db993daeb10a9d427baf5c2b7b2''
          else if u = ''http://h/p1569'' then ''36f02f84c4d18e5b350241b70446d874''
          else if u = ''http://h/p6288'' then ''36f02f63fae4a32e5933ef1924b1e412''
          else ''d41d8cd98f00b204e9800998ecf8427e'')\<rparr>"

definition ok_response :: response where
  "ok_response =
     \<lparr>status = 200,
      headers = [(''Content-Length'', ''3''), (''Content-Type'', ''application/pdf'')],
      body = Some ''abc''\<rparr>"

definition big_response :: response where
  "big_response =
     \<lparr>status = 200,
      headers = [(''Content-Length'', ''50000000''), (''Content-Type'', ''application/pdf'')],
      body = Some ''abc''\<rparr>"

definition big_lower_response :: response where
  "big_lower_response =
     \<lparr>status = 200, headers = [(''content-length'', ''50000000'')], body = Some ''abc''\<rparr>"

definition missing_response :: response where
  "missing_response = \<lparr>status = 404, headers = [], body = Some []\<rparr>"

definition ex_page :: "string \<Rightarrow> page" where
  "ex_page b = \<lparr>status_code = 200, content = b, text_of = b\<rparr>"

definition ex_world :: "string \<Rightarrow> response \<Rightarrow> world" where
  "ex_world b r =
     \<lparr>requests_get = (\<lambda>u. if u = ex_url then Some (ex_page b) else None),
      session_get = (\<lambda>u. Some r),
      open_ok = (\<lambda>n. True),
      getsize = (\<lambda>n. Some 3),
      remove_ok = (\<lambda>n. True),
      save_ok = True,
      add_job_ok = (\<lambda>i n night. True),
      send_document_ok = (\<lambda>c n cap. True),
      send_message_ok = (\<lambda>c t. True)\<rparr>"


definition ex_tracked :: "string \<Rightarrow> string list \<Rightarrow> tracked" where
  "ex_tracked h fs = \<lparr>hash = h, interval = 5, night_mode = False, files = fs\<rparr>"

definition ex_data :: "string \<Rightarrow> string list \<Rightarrow> user_data" where
  "ex_data h fs = (\<lambda>c. if c = 1 then Some (\<lambda>u. if u = ex_url then Some (ex_tracked h fs) else None)
                        else None)"

definition ex_state :: "string \<Rightarrow> string list \<Rightarrow> state" where
  "ex_state h fs =
     \<lparr>user_data = ex_data h fs, user_data_file = ex_data h fs, jobs = (\<lambda>i. None)\<rparr>"

definition empty_state :: state where
  "empty_state = \<lparr>user_data = (\<lambda>c. None), user_data_file = (\<lambda>c. None), jobs = (\<lambda>i. None)\<rparr>"

definition track_message :: "string \<Rightarrow> message" where
  "track_message t = \<lparr>chat_id = 1, msg_text = t\<rparr>"

definition first_tracked :: state where
  "first_tracked =
     fst (track ex_lib (ex_world body1 ok_response) empty_state
            (track_message ''/track http://h/p1569 5''))"

definition collide_state :: state where
  "collide_state =
     fst (track ex_lib (ex_world body1 ok_response) first_tracked
            (track_message ''/track http://h/p6288 5''))"

definition two_tracked :: state where
  "two_tracked =
     fst (track ex_lib (ex_world body1 ok_response) first_tracked
            (track_message ''/track http://h/ 7 night''))"

definition retracked :: state where
  "retracked =
     fst (track ex_lib (ex_world body1 ok_response) two_tracked
            (track_message ''/track http://h/p1569 9 night''))"

definition d1_file :: extracted_file where
  "d1_file = \<lparr>file_name = ''d1.pdf'', file_url = ''http://h/d1.pdf'', file_type = ''document''\<rparr>"

section \<open>\<open>download_file\<close> returns a name or \<open>None\<close>\<close>

lemma download_file_events:
  "x \<in> set (snd (download_file L W u cn)) \<Longrightarrow>
     x = HttpGet u \<or> x = download_failed \<or> (\<exists>fn. x = WriteFile fn \<or> x = RemoveFile fn)"
  by (auto simp: download_file_def Let_def split: option.splits if_splits)

lemma exceeds_cap_skipped:
  "exceeds_cap L W u cn \<Longrightarrow> fst (download_file L W u cn) = None"
  by (auto simp: exceeds_cap_def download_file_def Let_def split: option.splits if_splits)

text \<open>
  Claim C10. \<open>download_file\<close> always returns: \<open>None\<close> when the request raises, when the
  status is not 200, when the \<open>Content-Length\<close> header (under any spelling of its
  name) does not parse or exceeds \<open>MAX_FILE_SIZE\<close> (nothing is written then), when
  \<open>urlparse\<close> raises, when the file cannot be opened, read or measured, and when the
  size measured on disk exceeds \<open>MAX_FILE_SIZE\<close>, in which case the file is removed
  before returning. In the remaining case it returns the name of the file it wrote,
  and a returned name always is that name.
\<close>

theorem download_file_never_raises:
  "(session_get W u = None \<longrightarrow> fst (download_file L W u cn) = None)
   \<and> (\<forall>r. session_get W u = Some r \<longrightarrow>
         (status r \<noteq> 200 \<longrightarrow> download_file L W u cn = (None, [HttpGet u]))
       \<and> (content_length_of r = None \<longrightarrow> fst (download_file L W u cn) = None)
       \<and> (\<forall>n. content_length_of r = Some n \<and> n > MAX_FILE_SIZE \<longrightarrow>
              fst (download_file L W u cn) = None
              \<and> (\<forall>f. WriteFile f \<notin> set (snd (download_file L W u cn))))
       \<and> (urlparse_path L u = None \<longrightarrow>
              fst (download_file L W u cn) = None
              \<and> (\<forall>f. WriteFile f \<notin> set (snd (download_file L W u cn))))
       \<and> (\<forall>n path d sz. status r = 200 \<and> content_length_of r = Some n
              \<and> n \<le> MAX_FILE_SIZE \<and> urlparse_path L u = Some path
              \<and> open_ok W (download_filename r path cn) \<and> body r = Some d
              \<and> getsize W (download_filename r path cn) = Some sz \<longrightarrow>
              (sz > MAX_FILE_SIZE \<and> remove_ok W (download_filename r path cn) \<longrightarrow>
                 download_file L W u cn =
                   (None, [HttpGet u, WriteFile (download_filename r path cn),
                           RemoveFile (download_filename r path cn)]))
            \<and> (sz > MAX_FILE_SIZE \<longrightarrow> fst (download_file L W u cn) = None)
            \<and> (sz \<le> MAX_FILE_SIZE \<longrightarrow>
                 download_file L W u cn =
                   (Some (download_filename r path cn),
                    [HttpGet u, WriteFile (download_filename r path cn)])))
       \<and> (\<forall>path. urlparse_path L u = Some path
              \<and> (\<not> open_ok W (download_filename r path cn) \<or> body r = None
                  \<or> getsize W (download_filename r path cn) = None) \<longrightarrow>
              fst (download_file L W u cn) = None))
   \<and> (\<forall>fn. fst (download_file L W u cn) = Some fn \<longrightarrow>
         (\<exists>r path. session_get W u = Some r \<and> urlparse_path L u = Some path
              \<and> fn = download_filename r path cn \<and> status r = 200
              \<and> snd (download_file L W u cn) = [HttpGet u, WriteFile fn]))"
  by (auto simp: download_file_def Let_def download_failed_def split: option.splits)

theorem download_file_never_raises_witness:
  "download_file ex_lib (ex_world body1 ok_response) ''http://h/d1.pdf'' (Some ''d1.pdf'')
     = (Some ''d1.pdf.pdf'', [HttpGet ''http://h/d1.pdf'', WriteFile ''d1.pdf.pdf''])
   \<and> fst (download_file ex_lib (ex_world body1 big_response) ''http://h/d1.pdf''
            (Some ''d1.pdf'')) = None
   \<and> content_length_of big_lower_response = Some 50000000
   \<and> fst (download_file ex_lib (ex_world body1 big_lower_response) ''http://h/d1.pdf''
            (Some ''d1.pdf'')) = None
   \<and> fst (download_file ex_lib (ex_world body1 missing_response) ''http://h/d1.pdf''
            (Some ''d1.pdf'')) = None"
proof -
  let ?u = "''http://h/d1.pdf''"
  have g: "session_get (ex_world body1 r) ?u = Some r" for r
    by (simp add: ex_world_def)
  have st: "status ok_response = 200" "status missing_response \<noteq> 200"
    by (simp_all add: ok_response_def missing_response_def)
  have cl: "content_length_of ok_response = Some 3"
    "content_length_of big_response = Some 50000000"
    "content_length_of big_lower_response = Some 50000000"
    by code_simp+
  have mx: "(3::int) \<le> MAX_FILE_SIZE" "50000000 > MAX_FILE_SIZE"
    by (simp_all add: MAX_FILE_SIZE_def)
  have pa: "urlparse_path ex_lib ?u = Some ''/d1.pdf''"
    by code_simp
  have fn: "download_filename ok_response ''/d1.pdf'' (Some ''d1.pdf'') = ''d1.pdf.pdf''"
    by code_simp
  have w: "open_ok (ex_world body1 ok_response) ''d1.pdf.pdf''"
    "getsize (ex_world body1 ok_response) ''d1.pdf.pdf'' = Some 3"
    "body ok_response = Some ''abc''"
    by (simp_all add: ex_world_def ok_response_def)
  note T1 = download_file_never_raises
              [of "ex_world body1 ok_response" ?u ex_lib "Some ''d1.pdf''"]
  note T2 = download_file_never_raises
              [of "ex_world body1 big_response" ?u ex_lib "Some ''d1.pdf''"]
  note T3 = download_file_never_raises
              [of "ex_world body1 missing_response" ?u ex_lib "Some ''d1.pdf''"]
  note T4 = download_file_never_raises
              [of "ex_world body1 big_lower_response" ?u ex_lib "Some ''d1.pdf''"]
  note S1 = T1[THEN conjunct2, THEN conjunct1, rule_format, OF g]
  note S2 = T2[THEN conjunct2, THEN conjunct1, rule_format, OF g]
  note S3 = T3[THEN conjunct2, THEN conjunct1, rule_format, OF g]
  note S4 = T4[THEN conjunct2, THEN conjunct1, rule_format, OF g]
  have r3: "fst (download_file ex_lib (ex_world body1 missing_response) ?u (Some ''d1.pdf''))
              = None"
    using S3[THEN conjunct1, rule_format, OF st(2)] by simp
  have r2: "fst (download_file ex_lib (ex_world body1 big_response) ?u (Some ''d1.pdf''))
              = None"
    using S2[THEN conjunct2, THEN conjunct2, THEN conjunct1, rule_format,
             OF conjI, OF cl(2) mx(2)]
    by (rule conjunct1)
  have r4: "fst (download_file ex_lib (ex_world body1 big_lower_response) ?u
                   (Some ''d1.pdf'')) = None"
    using S4[THEN conjunct2, THEN conjunct2, THEN conjunct1, rule_format,
             OF conjI, OF cl(3) mx(2)]
    by (rule conjunct1)
  have pre: "status ok_response = 200 \<and> content_length_of ok_response = Some 3
      \<and> 3 \<le> MAX_FILE_SIZE \<and> urlparse_path ex_lib ?u = Some ''/d1.pdf''
      \<and> open_ok (ex_world body1 ok_response)
            (download_filename ok_response ''/d1.pdf'' (Some ''d1.pdf''))
      \<and> body ok_response = Some ''abc''
      \<and> getsize (ex_world body1 ok_response)
            (download_filename ok_response ''/d1.pdf'' (Some ''d1.pdf'')) = Some 3"
    unfolding fn by (intro conjI) (rule st(1) cl(1) mx(1) pa w)+
  have r1: "download_file ex_lib (ex_world body1 ok_response) ?u (Some ''d1.pdf'')
     = (Some ''d1.pdf.pdf'', [HttpGet ?u, WriteFile ''d1.pdf.pdf''])"
    using S1[THEN conjunct2, THEN conjunct2, THEN conjunct2, THEN conjunct2, THEN conjunct1,
             rule_format, OF pre, THEN conjunct2, THEN conjunct2, rule_format, OF mx(1)]
    unfolding fn .
  show ?thesis by (intro conjI) (rule r1 r2 cl(3) r4 r3)+
qed

section \<open>One poll cycle\<close>

lemma lookup_store_tracked:
  "lookup (user_data (store_tracked s c u t)) c' u' =
     (if c' = c \<and> u' = u then Some t else lookup (user_data s) c' u')"
  by (auto simp: lookup_def store_tracked_def split: option.splits)

lemma save_json_fields [simp]:
  "user_data (save_json s) = user_data s"
  "user_data_file (save_json s) = user_data s"
  "jobs (save_json s) = jobs s"
  by (simp_all add: save_json_def)

lemma check_changed:
  assumes "requests_get W u = Some p"
    and "\<not> (400 \<le> status_code p \<and> status_code p < 600)"
    and "lookup (user_data s) c u = Some tr"
    and "sha256_hex L (content p) \<noteq> hash tr"
    and "extract_files L (text_of p) u = Some nf"
    and "save_ok W"
    and "send_updates L W c (files tr) nf = (ok, summary, ev)"
  shows "check_single_website L W s u c =
     (save_json (store_tracked s c u
        (tr\<lparr>hash := sha256_hex L (content p), files := map file_url nf\<rparr>)),
      [Extract, SaveJson] @ ev @ cycle_tail W u c ok summary)"
  using assms by (simp add: check_single_website_def Let_def cycle_tail_def)

lemma check_extract_raises:
  assumes "requests_get W u = Some p"
    and "\<not> (400 \<le> status_code p \<and> status_code p < 600)"
    and "lookup (user_data s) c u = Some tr"
    and "sha256_hex L (content p) \<noteq> hash tr"
    and "extract_files L (text_of p) u = None"
  shows "check_single_website L W s u c = (s, [monitoring_error])"
  using assms by (simp add: check_single_website_def Let_def)

lemma check_save_fails:
  assumes "requests_get W u = Some p"
    and "\<not> (400 \<le> status_code p \<and> status_code p < 600)"
    and "lookup (user_data s) c u = Some tr"
    and "sha256_hex L (content p) \<noteq> hash tr"
    and "extract_files L (text_of p) u = Some nf"
    and "\<not> save_ok W"
  shows "check_single_website L W s u c =
     (store_tracked s c u (tr\<lparr>hash := sha256_hex L (content p), files := map file_url nf\<rparr>),
      [Extract, monitoring_error])"
  using assms by (simp add: check_single_website_def Let_def)

lemma check_without_change:
  assumes "requests_get W u = None
     \<or> (\<exists>p. requests_get W u = Some p
           \<and> ((400 \<le> status_code p \<and> status_code p < 600)
               \<or> lookup (user_data s) c u = None
               \<or> (\<exists>tr. lookup (user_data s) c u = Some tr
                     \<and> (sha256_hex L (content p) = hash tr
                         \<or> extract_files L (text_of p) u = None))))"
  shows "fst (check_single_website L W s u c) = s"
  using assms by (auto simp: check_single_website_def Let_def split: option.splits)

text \<open>
  Claim C4. When the hash of the fetched content equals the stored hash, the cycle
  returns the state it was given and no event happens (no extraction, no download,
  no message, no write of the file); a second cycle on the same content does the
  same.
\<close>

theorem unchanged_hash_is_noop:
  assumes "requests_get W u = Some p"
    and "\<not> (400 \<le> status_code p \<and> status_code p < 600)"
    and "lookup (user_data s) c u = Some tr"
    and "sha256_hex L (content p) = hash tr"
  shows "check_single_website L W s u c = (s, [])
         \<and> check_single_website L W (fst (check_single_website L W s u c)) u c = (s, [])"
  using assms by (simp add: check_single_website_def)

theorem unchanged_hash_is_noop_witness:
  "requests_get (ex_world body1 ok_response) ex_url = Some (ex_page body1)
   \<and> lookup (user_data (ex_state hash1 [''http://h/d1.pdf''])) 1 ex_url
       = Some (ex_tracked hash1 [''http://h/d1.pdf''])
   \<and> sha256_hex ex_lib (content (ex_page body1)) = hash1
   \<and> check_single_website ex_lib (ex_world body1 ok_response)
        (ex_state hash1 [''http://h/d1.pdf'']) ex_url 1
       = (ex_state hash1 [''http://h/d1.pdf''], [])"
proof -
  have a: "requests_get (ex_world body1 ok_response) ex_url = Some (ex_page body1)"
    by (simp add: ex_world_def)
  have b: "\<not> (400 \<le> status_code (ex_page body1) \<and> status_code (ex_page body1) < 600)"
    by (simp add: ex_page_def)
  have c: "lookup (user_data (ex_state hash1 [''http://h/d1.pdf''])) 1 ex_url
             = Some (ex_tracked hash1 [''http://h/d1.pdf''])"
    by (simp add: lookup_def ex_state_def ex_data_def)
  have d: "sha256_hex ex_lib (content (ex_page body1)) = hash1"
    by (simp add: ex_lib_def ex_page_def hash1_def)
  have e: "sha256_hex ex_lib (content (ex_page body1))
             = hash (ex_tracked hash1 [''http://h/d1.pdf''])"
    using d by (simp add: ex_tracked_def)
  show ?thesis using unchanged_hash_is_noop[OF a b c e] a c d by simp
qed




section \<open>What a changed cycle stores and sends\<close>

lemma send_updates_events:
  "x \<in> set (snd (snd (send_updates L W c prev fs))) \<Longrightarrow>
     (\<exists>g \<in> set fs. file_url g \<notin> set prev \<and> x = HttpGet (file_url g))
     \<or> x = download_failed \<or> (\<exists>fn. x = WriteFile fn \<or> x = RemoveFile fn)
     \<or> (\<exists>g \<in> set fs. \<exists>fn. file_url g \<notin> set prev
           \<and> fst (download_file L W (file_url g) (Some (file_name g))) = Some fn
           \<and> x = SendDocument c fn (caption g))"
proof (induction fs arbitrary: x)
  case Nil
  then show ?case by simp
next
  case (Cons f fs)
  show ?case
  proof (cases "file_url f \<in> set prev")
    case True
    with Cons show ?thesis by auto
  next
    case False
    obtain r ev where d: "download_file L W (file_url f) (Some (file_name f)) = (r, ev)"
      by (cases "download_file L W (file_url f) (Some (file_name f))")
    obtain ok sm ev' where rest: "send_updates L W c prev fs = (ok, sm, ev')"
      by (cases "send_updates L W c prev fs") auto
    have evs: "\<And>y. y \<in> set ev \<Longrightarrow>
        y = HttpGet (file_url f) \<or> y = download_failed \<or> (\<exists>fn. y = WriteFile fn \<or> y = RemoveFile fn)"
      using download_file_events[of _ L W "file_url f" "Some (file_name f)"] d by simp
    have ih: "\<And>y. y \<in> set ev' \<Longrightarrow>
       (\<exists>g \<in> set fs. file_url g \<notin> set prev \<and> y = HttpGet (file_url g))
     \<or> y = download_failed \<or> (\<exists>fn. y = WriteFile fn \<or> y = RemoveFile fn)
     \<or> (\<exists>g \<in> set fs. \<exists>fn. file_url g \<notin> set prev
           \<and> fst (download_file L W (file_url g) (Some (file_name g))) = Some fn
           \<and> y = SendDocument c fn (caption g))"
      using Cons.IH rest by simp
    from Cons.prems False d rest
    consider "x \<in> set ev" | "x \<in> set ev'"
      | fn where "r = Some fn" "x = SendDocument c fn (caption f)"
      | fn where "r = Some fn" "x = RemoveFile fn"
      by (cases r) (auto split: if_splits)
    then show ?thesis
    proof cases
      case 1
      with evs[of x] False show ?thesis by auto
    next
      case 2
      with ih[of x] show ?thesis by auto
    next
      case 3
      with False d show ?thesis by auto
    next
      case 4
      then show ?thesis by auto
    qed
  qed
qed

lemma cycle_tail_events:
  "x \<in> set (cycle_tail W u c ok summary) \<Longrightarrow>
     x = monitoring_error \<or> x = SendMessage c (update_message u summary)"
  by (auto simp: cycle_tail_def split: if_splits)

lemma ex_fetch:
  "requests_get (ex_world b r) ex_url = Some (ex_page b)"
  "\<not> (400 \<le> status_code (ex_page b) \<and> status_code (ex_page b) < 600)"
  "save_ok (ex_world b r)"
  "content (ex_page b) = b" "text_of (ex_page b) = b"
  by (simp_all add: ex_world_def ex_page_def)

lemma ex_lookup:
  "lookup (user_data (ex_state h fs)) 1 ex_url = Some (ex_tracked h fs)"
  by (simp add: lookup_def ex_state_def ex_data_def)

lemma ex_extract:
  "extract_files ex_lib (text_of (ex_page body1)) ex_url = Some [d1_file]"
  "extract_files ex_lib (text_of (ex_page body6)) ex_url = None"
  by code_simp+

lemma changed_cycle_state:
  assumes "requests_get W u = Some p"
    and "\<not> (400 \<le> status_code p \<and> status_code p < 600)"
    and "lookup (user_data s) c u = Some tr"
    and "sha256_hex L (content p) \<noteq> hash tr"
    and "extract_files L (text_of p) u = Some nf"
  shows "user_data (fst (check_single_website L W s u c)) =
           user_data (store_tracked s c u
              (tr\<lparr>hash := sha256_hex L (content p), files := map file_url nf\<rparr>))"
proof (cases "save_ok W")
  case True
  obtain ok summary ev where
    su: "send_updates L W c (files tr) nf = (ok, summary, ev)"
    by (cases "send_updates L W c (files tr) nf") auto
  show ?thesis using check_changed[OF assms True su] by simp
next
  case False
  show ?thesis using check_save_fails[OF assms False] by simp
qed

text \<open>
  Claim C1, as amended. In a cycle whose hash has changed, whose extraction returns
  and whose write succeeds, the new entry is written to the file before any download
  or message: the events start with the extraction and the write, no second write
  follows, and the entry in the file holds the new hash and the URLs of all files
  extracted from the page, delivered or not. When the extraction raises instead,
  nothing is stored, written or sent: the state is unchanged and the log entry is
  the only event.
\<close>

theorem changed_cycle_saves_before_delivery:
  assumes "requests_get W u = Some p"
    and "\<not> (400 \<le> status_code p \<and> status_code p < 600)"
    and "lookup (user_data s) c u = Some tr"
    and "sha256_hex L (content p) \<noteq> hash tr"
    and "save_ok W"
  shows "(extract_files L (text_of p) u = None \<longrightarrow>
            check_single_website L W s u c = (s, [monitoring_error]))
       \<and> (\<forall>nf. extract_files L (text_of p) u = Some nf \<longrightarrow>
            (\<exists>ev. snd (check_single_website L W s u c) = Extract # SaveJson # ev
                  \<and> SaveJson \<notin> set ev \<and> Extract \<notin> set ev)
          \<and> lookup (user_data_file (fst (check_single_website L W s u c))) c u =
              Some (tr\<lparr>hash := sha256_hex L (content p), files := map file_url nf\<rparr>))"
proof (intro conjI impI allI)
  assume "extract_files L (text_of p) u = None"
  then show "check_single_website L W s u c = (s, [monitoring_error])"
    by (rule check_extract_raises[OF assms(1-4)])
next
  fix nf
  assume e: "extract_files L (text_of p) u = Some nf"
  obtain ok summary ev where
    su: "send_updates L W c (files tr) nf = (ok, summary, ev)"
    by (cases "send_updates L W c (files tr) nf") auto
  note ch = check_changed[OF assms(1-4) e assms(5) su]
  have "SaveJson \<notin> set ev" "Extract \<notin> set ev"
    using send_updates_events[of SaveJson L W c "files tr" nf]
      send_updates_events[of Extract L W c "files tr" nf] su
    by (auto simp: download_failed_def)
  moreover have "SaveJson \<notin> set (cycle_tail W u c ok summary)"
    "Extract \<notin> set (cycle_tail W u c ok summary)"
    using cycle_tail_events[of SaveJson W u c ok summary]
      cycle_tail_events[of Extract W u c ok summary] by (auto simp: monitoring_error_def)
  ultimately show "\<exists>ev. snd (check_single_website L W s u c) = Extract # SaveJson # ev
            \<and> SaveJson \<notin> set ev \<and> Extract \<notin> set ev"
    using ch by simp
  show "lookup (user_data_file (fst (check_single_website L W s u c))) c u =
           Some (tr\<lparr>hash := sha256_hex L (content p), files := map file_url nf\<rparr>)"
    using ch by (simp add: lookup_store_tracked)
qed

theorem changed_cycle_saves_before_delivery_witness:
  "requests_get (ex_world body1 ok_response) ex_url = Some (ex_page body1)
   \<and> lookup (user_data (ex_state [] [])) 1 ex_url = Some (ex_tracked [] [])
   \<and> sha256_hex ex_lib (content (ex_page body1)) \<noteq> hash (ex_tracked [] [])
   \<and> save_ok (ex_world body1 ok_response)
   \<and> extract_files ex_lib (text_of (ex_page body1)) ex_url = Some [d1_file]
   \<and> (\<exists>ev. snd (check_single_website ex_lib (ex_world body1 ok_response) (ex_state [] [])
                  ex_url 1) = Extract # SaveJson # ev
            \<and> SaveJson \<notin> set ev \<and> Extract \<notin> set ev)
   \<and> lookup (user_data_file (fst (check_single_website ex_lib (ex_world body1 ok_response)
         (ex_state [] []) ex_url 1))) 1 ex_url
       = Some \<lparr>hash = hash1, interval = 5, night_mode = False, files = [''http://h/d1.pdf'']\<rparr>
   \<and> extract_files ex_lib (text_of (ex_page body6)) ex_url = None
   \<and> check_single_website ex_lib (ex_world body6 ok_response) (ex_state [] []) ex_url 1
       = (ex_state [] [], [monitoring_error])"
proof -
  have ne: "sha256_hex ex_lib (content (ex_page body1)) \<noteq> hash (ex_tracked [] [])"
    by code_simp
  have ne6: "sha256_hex ex_lib (content (ex_page body6)) \<noteq> hash (ex_tracked [] [])"
    by code_simp
  have sh: "sha256_hex ex_lib (content (ex_page body1)) = hash1"
    by code_simp
  have tr: "ex_tracked [] []\<lparr>hash := hash1, files := map file_url [d1_file]\<rparr>
              = \<lparr>hash = hash1, interval = 5, night_mode = False, files = [''http://h/d1.pdf'']\<rparr>"
    by (simp add: ex_tracked_def d1_file_def)
  note T = changed_cycle_saves_before_delivery
             [OF ex_fetch(1)[of body1 ok_response] ex_fetch(2) ex_lookup ne ex_fetch(3),
              THEN conjunct2, rule_format, OF ex_extract(1), unfolded sh tr]
  note T6 = changed_cycle_saves_before_delivery
             [OF ex_fetch(1)[of body6 ok_response] ex_fetch(2) ex_lookup ne6 ex_fetch(3),
              THEN conjunct1, THEN mp, OF ex_extract(2)]
  show ?thesis
    by (intro conjI)
       (rule ex_fetch(1) ex_lookup ne ex_fetch(3) ex_extract T[THEN conjunct1]
             T[THEN conjunct2] T6)+
qed

text \<open>
  The claim as stated fails: the only download answers 404, nothing is delivered, and
  the file list written before the download already contains the URL.
\<close>

theorem persisted_before_delivery_counterexample:
  "snd (check_single_website ex_lib (ex_world body1 missing_response) (ex_state [] []) ex_url 1)
      = [Extract, SaveJson, HttpGet ''http://h/d1.pdf'']
   \<and> map_option files (lookup (user_data_file (ex_state [] [])) 1 ex_url) = Some []
   \<and> map_option files (lookup (user_data_file (fst (check_single_website ex_lib
        (ex_world body1 missing_response) (ex_state [] []) ex_url 1))) 1 ex_url)
      = Some [''http://h/d1.pdf'']"
  by code_simp

text \<open>
  Claim C2, as amended. A cycle never removes a target and never changes its interval
  or night flag. The stored entry of a target is left exactly as it was when the
  target is not the one polled, when the request fails or answers with a status from
  400 to 599, when the hash is equal, and when the extraction raises. In every other
  cycle the entry of the polled target gets the new hash and its file list is
  replaced by the URLs extracted from the new page (in memory, and in the file when
  the write succeeds): the list is replaced, not extended.
\<close>

theorem cycle_replaces_files:
  assumes "lookup (user_data s) c' u' = Some t"
  shows "(c' \<noteq> c \<or> u' \<noteq> u \<or> requests_get W u = None
          \<or> (\<exists>p. requests_get W u = Some p
                \<and> ((400 \<le> status_code p \<and> status_code p < 600)
                    \<or> sha256_hex L (content p) = hash t
                    \<or> extract_files L (text_of p) u = None))
          \<longrightarrow> lookup (user_data (fst (check_single_website L W s u c))) c' u' = Some t)
       \<and> (\<forall>p nf. c' = c \<and> u' = u \<and> requests_get W u = Some p
             \<and> \<not> (400 \<le> status_code p \<and> status_code p < 600)
             \<and> sha256_hex L (content p) \<noteq> hash t
             \<and> extract_files L (text_of p) u = Some nf
          \<longrightarrow> lookup (user_data (fst (check_single_website L W s u c))) c' u'
                = Some (t\<lparr>hash := sha256_hex L (content p), files := map file_url nf\<rparr>)
              \<and> (save_ok W \<longrightarrow>
                   lookup (user_data_file (fst (check_single_website L W s u c))) c' u'
                   = Some (t\<lparr>hash := sha256_hex L (content p), files := map file_url nf\<rparr>)))"
proof (intro conjI impI allI)
  assume a: "c' \<noteq> c \<or> u' \<noteq> u \<or> requests_get W u = None
          \<or> (\<exists>p. requests_get W u = Some p
                \<and> ((400 \<le> status_code p \<and> status_code p < 600)
                    \<or> sha256_hex L (content p) = hash t
                    \<or> extract_files L (text_of p) u = None))"
  show "lookup (user_data (fst (check_single_website L W s u c))) c' u' = Some t"
  proof (cases "\<exists>p tr nf. requests_get W u = Some p
                  \<and> \<not> (400 \<le> status_code p \<and> status_code p < 600)
                  \<and> lookup (user_data s) c u = Some tr \<and> sha256_hex L (content p) \<noteq> hash tr
                  \<and> extract_files L (text_of p) u = Some nf")
    case False
    then have "fst (check_single_website L W s u c) = s"
      by (intro check_without_change) (cases "requests_get W u"; cases "lookup (user_data s) c u";
          fastforce)
    with assms show ?thesis by simp
  next
    case True
    then obtain p tr nf where h: "requests_get W u = Some p"
      "\<not> (400 \<le> status_code p \<and> status_code p < 600)"
      "lookup (user_data s) c u = Some tr" "sha256_hex L (content p) \<noteq> hash tr"
      "extract_files L (text_of p) u = Some nf"
      by blast
    have "c' \<noteq> c \<or> u' \<noteq> u"
    proof (rule ccontr)
      assume "\<not> (c' \<noteq> c \<or> u' \<noteq> u)"
      then have "c' = c" "u' = u" by simp_all
      with assms h(3) have "t = tr" by simp
      with a h \<open>c' = c\<close> \<open>u' = u\<close> show False by auto
    qed
    then show ?thesis
      using assms changed_cycle_state[OF h] by (auto simp: lookup_store_tracked)
  qed
next
  fix p nf
  assume b: "c' = c \<and> u' = u \<and> requests_get W u = Some p
             \<and> \<not> (400 \<le> status_code p \<and> status_code p < 600)
             \<and> sha256_hex L (content p) \<noteq> hash t
             \<and> extract_files L (text_of p) u = Some nf"
  then have h: "requests_get W u = Some p"
      "\<not> (400 \<le> status_code p \<and> status_code p < 600)"
      "lookup (user_data s) c u = Some t" "sha256_hex L (content p) \<noteq> hash t"
      "extract_files L (text_of p) u = Some nf"
    using assms by simp_all
  from b have eq: "c' = c" "u' = u" by simp_all
  show "lookup (user_data (fst (check_single_website L W s u c))) c' u'
          = Some (t\<lparr>hash := sha256_hex L (content p), files := map file_url nf\<rparr>)"
    using changed_cycle_state[OF h] eq by (simp add: lookup_store_tracked)
  {
    assume sv: "save_ok W"
    obtain ok summary ev where
      su: "send_updates L W c (files t) nf = (ok, summary, ev)"
      by (cases "send_updates L W c (files t) nf") auto
    show "lookup (user_data_file (fst (check_single_website L W s u c))) c' u'
          = Some (t\<lparr>hash := sha256_hex L (content p), files := map file_url nf\<rparr>)"
      using check_changed[OF h sv su] eq by (simp add: lookup_store_tracked)
  }
qed

theorem cycle_replaces_files_witness:
  "lookup (user_data (ex_state hash1 [''http://h/d1.pdf''])) 1 ex_url
       = Some (ex_tracked hash1 [''http://h/d1.pdf''])
   \<and> requests_get (ex_world body6 ok_response) ex_url = Some (ex_page body6)
   \<and> extract_files ex_lib (text_of (ex_page body6)) ex_url = None
   \<and> lookup (user_data (fst (check_single_website ex_lib (ex_world body6 ok_response)
         (ex_state hash1 [''http://h/d1.pdf'']) ex_url 1))) 1 ex_url
       = Some (ex_tracked hash1 [''http://h/d1.pdf''])
   \<and> requests_get ((ex_world body2 ok_response)\<lparr>requests_get := (\<lambda>u. None)\<rparr>) ex_url = None
   \<and> lookup (user_data (fst (check_single_website ex_lib
         ((ex_world body2 ok_response)\<lparr>requests_get := (\<lambda>u. None)\<rparr>)
         (ex_state hash1 [''http://h/d1.pdf'']) ex_url 1))) 1 ex_url
       = Some (ex_tracked hash1 [''http://h/d1.pdf''])
   \<and> requests_get (ex_world body2 ok_response) ex_url = Some (ex_page body2)
   \<and> sha256_hex ex_lib (content (ex_page body2)) \<noteq> hash (ex_tracked hash1 [''http://h/d1.pdf''])
   \<and> map_option (map file_url) (extract_files ex_lib (text_of (ex_page body2)) ex_url)
       = Some [''http://h/d1.pdf'', ''http://h/d2.pdf'']
   \<and> save_ok (ex_world body2 ok_response)
   \<and> map_option files (lookup (user_data (fst (check_single_website ex_lib
         (ex_world body2 ok_response) (ex_state hash1 [''http://h/d1.pdf'']) ex_url 1))) 1 ex_url)
       = Some [''http://h/d1.pdf'', ''http://h/d2.pdf'']
   \<and> map_option files (lookup (user_data_file (fst (check_single_website ex_lib
         (ex_world body2 ok_response) (ex_state hash1 [''http://h/d1.pdf'']) ex_url 1))) 1 ex_url)
       = Some [''http://h/d1.pdf'', ''http://h/d2.pdf'']"
proof -
  let ?s = "ex_state hash1 [''http://h/d1.pdf'']"
  let ?t = "ex_tracked hash1 [''http://h/d1.pdf'']"
  have lk: "lookup (user_data ?s) 1 ex_url = Some ?t"
    by (rule ex_lookup)
  have a: "(1::int) \<noteq> 1 \<or> ex_url \<noteq> ex_url \<or> requests_get (ex_world body6 ok_response) ex_url = None
          \<or> (\<exists>p. requests_get (ex_world body6 ok_response) ex_url = Some p
                \<and> ((400 \<le> status_code p \<and> status_code p < 600)
                    \<or> sha256_hex ex_lib (content p) = hash ?t
                    \<or> extract_files ex_lib (text_of p) ex_url = None))"
    using ex_fetch(1)[of body6 ok_response] ex_extract(2) by blast
  let ?nf = "[d1_file, \<lparr>file_name = ''d2.pdf'', file_url = ''http://h/d2.pdf'',
                         file_type = ''document''\<rparr>]"
  have nf: "extract_files ex_lib (text_of (ex_page body2)) ex_url = Some ?nf"
    by code_simp
  have nfu: "map file_url ?nf = [''http://h/d1.pdf'', ''http://h/d2.pdf'']"
    by (simp add: d1_file_def)
  have ne: "sha256_hex ex_lib (content (ex_page body2)) \<noteq> hash ?t"
    by code_simp
  have b: "(1::int) = 1 \<and> ex_url = ex_url
             \<and> requests_get (ex_world body2 ok_response) ex_url = Some (ex_page body2)
             \<and> \<not> (400 \<le> status_code (ex_page body2) \<and> status_code (ex_page body2) < 600)
             \<and> sha256_hex ex_lib (content (ex_page body2)) \<noteq> hash ?t
             \<and> extract_files ex_lib (text_of (ex_page body2)) ex_url = Some ?nf"
    by (intro conjI refl ex_fetch(1) ex_fetch(2) ne nf)
  note A = cycle_replaces_files[OF lk, THEN conjunct1, THEN mp, OF a]
  let ?Wf = "(ex_world body2 ok_response)\<lparr>requests_get := (\<lambda>u. None)\<rparr>"
  have rf: "requests_get ?Wf ex_url = None"
    by simp
  note F = cycle_replaces_files[OF lk, THEN conjunct1, THEN mp,
             OF disjI2[OF disjI2[OF disjI1]], OF rf]
  note B = cycle_replaces_files[OF lk, THEN conjunct2, rule_format, OF b]
  have m: "map_option files (lookup (user_data (fst (check_single_website ex_lib
         (ex_world body2 ok_response) ?s ex_url 1))) 1 ex_url)
       = Some [''http://h/d1.pdf'', ''http://h/d2.pdf'']"
    unfolding B[THEN conjunct1] using nfu by simp
  have d: "map_option files (lookup (user_data_file (fst (check_single_website ex_lib
         (ex_world body2 ok_response) ?s ex_url 1))) 1 ex_url)
       = Some [''http://h/d1.pdf'', ''http://h/d2.pdf'']"
    unfolding B[THEN conjunct2, THEN mp, OF ex_fetch(3)] using nfu by simp
  have e: "map_option (map file_url) (extract_files ex_lib (text_of (ex_page body2)) ex_url)
       = Some [''http://h/d1.pdf'', ''http://h/d2.pdf'']"
    unfolding nf using nfu by simp
  show ?thesis
    by (intro conjI) (rule lk ex_fetch(1) ex_extract(2) A rf F ne e ex_fetch(3) m d)+
qed

text \<open>
  The claim as stated fails: a stored URL that the new page no longer links is gone
  from the list, in memory and in the file.
\<close>

theorem stored_files_shrink_counterexample:
  "map_option files (lookup (user_data (ex_state hash1 [''http://h/d1.pdf''])) 1 ex_url)
      = Some [''http://h/d1.pdf'']
   \<and> map_option files (lookup (user_data (fst (check_single_website ex_lib
        (ex_world body3 ok_response) (ex_state hash1 [''http://h/d1.pdf'']) ex_url 1))) 1 ex_url)
      = Some []
   \<and> map_option files (lookup (user_data_file (fst (check_single_website ex_lib
        (ex_world body3 ok_response) (ex_state hash1 [''http://h/d1.pdf'']) ex_url 1))) 1 ex_url)
      = Some []"
  by code_simp

lemma stored_url_not_downloaded:
  assumes "lookup (user_data s) c u = Some tr" and "x \<in> set (files tr)"
  shows "HttpGet x \<notin> set (snd (check_single_website L W s u c))"
proof (cases "\<exists>p nf. requests_get W u = Some p \<and> \<not> (400 \<le> status_code p \<and> status_code p < 600)
                \<and> sha256_hex L (content p) \<noteq> hash tr
                \<and> extract_files L (text_of p) u = Some nf")
  case False
  with assms(1) have "snd (check_single_website L W s u c) = []
      \<or> snd (check_single_website L W s u c) = [monitoring_error]"
    by (auto simp: check_single_website_def Let_def split: option.splits)
  then show ?thesis by (auto simp: monitoring_error_def)
next
  case True
  then obtain p nf where h: "requests_get W u = Some p"
    "\<not> (400 \<le> status_code p \<and> status_code p < 600)" "sha256_hex L (content p) \<noteq> hash tr"
    "extract_files L (text_of p) u = Some nf"
    by blast
  show ?thesis
  proof (cases "save_ok W")
    case False
    have "snd (check_single_website L W s u c) = [Extract, monitoring_error]"
      using check_save_fails[OF h(1) h(2) assms(1) h(3) h(4) False] by simp
    then show ?thesis by (simp add: monitoring_error_def)
  next
    case True
    obtain ok summary ev where
      su: "send_updates L W c (files tr) nf = (ok, summary, ev)"
      by (cases "send_updates L W c (files tr) nf") auto
    have "HttpGet x \<notin> set ev"
      using send_updates_events[of "HttpGet x" L W c "files tr" nf] su assms(2)
      by (auto simp: download_failed_def)
    moreover have "HttpGet x \<notin> set (cycle_tail W u c ok summary)"
      using cycle_tail_events[of "HttpGet x" W u c ok summary]
      by (auto simp: monitoring_error_def)
    ultimately show ?thesis
      using check_changed[OF h(1) h(2) assms(1) h(3) h(4) True su] by simp
  qed
qed

text \<open>
  Claim C3, as amended. In a changed cycle whose extraction returns and whose write
  succeeds, a file that exceeds the size bound or whose download returns \<open>None\<close> is
  not sent (every document sent comes from another extracted file, whose download
  returned a name) and the hash is updated; its URL is nevertheless in the stored
  file list, so the next cycle on this state never requests it again.
\<close>

theorem skipped_file_is_stored:
  assumes "requests_get W u = Some p"
    and "\<not> (400 \<le> status_code p \<and> status_code p < 600)"
    and "lookup (user_data s) c u = Some tr"
    and "sha256_hex L (content p) \<noteq> hash tr"
    and "extract_files L (text_of p) u = Some nf"
    and "save_ok W"
    and "f \<in> set nf"
    and "exceeds_cap L W (file_url f) (Some (file_name f))
         \<or> fst (download_file L W (file_url f) (Some (file_name f))) = None"
  shows "(\<exists>tr'. lookup (user_data_file (fst (check_single_website L W s u c))) c u = Some tr'
            \<and> hash tr' = sha256_hex L (content p) \<and> file_url f \<in> set (files tr'))
       \<and> (\<forall>fn cap. SendDocument c fn cap \<in> set (snd (check_single_website L W s u c)) \<longrightarrow>
            (\<exists>g \<in> set nf.
               fst (download_file L W (file_url g) (Some (file_name g))) = Some fn
               \<and> cap = caption g \<and> g \<noteq> f))
       \<and> (\<forall>W'. HttpGet (file_url f) \<notin>
             set (snd (check_single_website L W' (fst (check_single_website L W s u c)) u c)))"
proof -
  have skip: "fst (download_file L W (file_url f) (Some (file_name f))) = None"
    using assms(8) exceeds_cap_skipped by blast
  obtain ok summary ev where
    su: "send_updates L W c (files tr) nf = (ok, summary, ev)"
    by (cases "send_updates L W c (files tr) nf") auto
  let ?tr' = "tr\<lparr>hash := sha256_hex L (content p), files := map file_url nf\<rparr>"
  let ?s' = "fst (check_single_website L W s u c)"
  note ch = check_changed[OF assms(1-6) su]
  have mem: "lookup (user_data ?s') c u = Some ?tr'"
    and disk: "lookup (user_data_file ?s') c u = Some ?tr'"
    using ch by (simp_all add: lookup_store_tracked)
  have inl: "file_url f \<in> set (files ?tr')"
    using assms(7) by simp
  have a: "\<exists>tr'. lookup (user_data_file ?s') c u = Some tr'
            \<and> hash tr' = sha256_hex L (content p) \<and> file_url f \<in> set (files tr')"
    using disk inl by simp
  have b: "\<exists>g \<in> set nf.
               fst (download_file L W (file_url g) (Some (file_name g))) = Some fn
               \<and> cap = caption g \<and> g \<noteq> f"
    if "SendDocument c fn cap \<in> set (snd (check_single_website L W s u c))" for fn cap
  proof -
    have "SendDocument c fn cap \<notin> set (cycle_tail W u c ok summary)"
      using cycle_tail_events[of "SendDocument c fn cap" W u c ok summary]
      by (auto simp: monitoring_error_def)
    with that ch have "SendDocument c fn cap \<in> set ev" by simp
    then obtain g where "g \<in> set nf"
      "fst (download_file L W (file_url g) (Some (file_name g))) = Some fn" "cap = caption g"
      using send_updates_events[of "SendDocument c fn cap" L W c "files tr" nf] su
      by (auto simp: download_failed_def)
    moreover from this skip have "g \<noteq> f" by auto
    ultimately show ?thesis by blast
  qed
  have c: "HttpGet (file_url f) \<notin> set (snd (check_single_website L W' ?s' u c))" for W'
    using stored_url_not_downloaded[OF mem inl] .
  show ?thesis using a b c by blast
qed

theorem skipped_file_is_stored_witness:
  "extract_files ex_lib (text_of (ex_page body1)) ex_url = Some [d1_file]
   \<and> d1_file \<in> set [d1_file]
   \<and> exceeds_cap ex_lib (ex_world body1 big_response) (file_url d1_file)
        (Some (file_name d1_file))
   \<and> (\<exists>tr'. lookup (user_data_file (fst (check_single_website ex_lib
                (ex_world body1 big_response) (ex_state [] []) ex_url 1))) 1 ex_url = Some tr'
          \<and> hash tr' = hash1 \<and> file_url d1_file \<in> set (files tr'))
   \<and> HttpGet (file_url d1_file) \<notin> set (snd (check_single_website ex_lib
         (ex_world body2 ok_response)
         (fst (check_single_website ex_lib (ex_world body1 big_response) (ex_state [] [])
                 ex_url 1)) ex_url 1))"
proof -
  have ne: "sha256_hex ex_lib (content (ex_page body1)) \<noteq> hash (ex_tracked [] [])"
    by code_simp
  have sh: "sha256_hex ex_lib (content (ex_page body1)) = hash1"
    by code_simp
  have mem: "d1_file \<in> set [d1_file]"
    by simp
  have cap: "exceeds_cap ex_lib (ex_world body1 big_response) (file_url d1_file)
        (Some (file_name d1_file))"
    by code_simp
  note T = skipped_file_is_stored
             [OF ex_fetch(1)[of body1 big_response] ex_fetch(2) ex_lookup ne ex_extract(1)
                 ex_fetch(3) mem disjI1, OF cap, unfolded sh]
  show ?thesis
    by (intro conjI)
       (rule ex_extract(1) mem cap T[THEN conjunct1]
             T[THEN conjunct2, THEN conjunct2, rule_format])+
qed

text \<open>
  The claim as stated fails: the file over the cap is not delivered, but its URL is
  written to the file, and when the page changes again only the other file is
  requested.
\<close>

theorem oversize_file_stored_counterexample:
  "exceeds_cap ex_lib (ex_world body1 big_response) ''http://h/d1.pdf'' (Some ''d1.pdf'')
   \<and> snd (check_single_website ex_lib (ex_world body1 big_response) (ex_state [] []) ex_url 1)
      = [Extract, SaveJson, HttpGet ''http://h/d1.pdf'']
   \<and> map_option files (lookup (user_data_file (fst (check_single_website ex_lib
        (ex_world body1 big_response) (ex_state [] []) ex_url 1))) 1 ex_url)
      = Some [''http://h/d1.pdf'']
   \<and> snd (check_single_website ex_lib (ex_world body2 ok_response)
        (fst (check_single_website ex_lib (ex_world body1 big_response) (ex_state [] [])
                ex_url 1)) ex_url 1)
      = [Extract, SaveJson, HttpGet ''http://h/d2.pdf'', WriteFile ''d2.pdf.pdf'',
         SendDocument 1 ''d2.pdf.pdf'' ''d2.pdf (document)'', RemoveFile ''d2.pdf.pdf'',
         SendMessage 1 (update_message ex_url [''d2.pdf (document)''])]"
  by code_simp

section \<open>What \<open>extract_files\<close> keeps\<close>

lemma extract_tag_Raised_iff:
  "extract_tag L b t = Raised \<longleftrightarrow>
     (\<exists>r. py_or (tag_get t ''href'') (tag_get t ''src'') = Some r \<and> r \<noteq> []
        \<and> urljoin L b r = None)"
  unfolding extract_tag_def
  by (cases "py_or (tag_get t ''href'') (tag_get t ''src'')")
     (auto split: option.splits)

lemma extract_tag_Kept_iff:
  "extract_tag L b t = Kept f \<longleftrightarrow>
     (\<exists>r u. py_or (tag_get t ''href'') (tag_get t ''src'') = Some r \<and> r \<noteq> []
        \<and> urljoin L b r = Some u
        \<and> (\<exists>ext \<in> set ALLOWED_EXTS. endswith (lower u) ext)
        \<and> f = \<lparr>file_name = or_str (tag_get t ''alt'') (or_str (tag_get t ''title'') (basename u)),
                file_url = u,
                file_type = file_type_of u\<rparr>)"
  unfolding extract_tag_def list_ex_iff
  by (cases "py_or (tag_get t ''href'') (tag_get t ''src'')")
     (auto split: option.splits)

lemma extract_loop_None_iff:
  "extract_loop L b ts = None \<longleftrightarrow> (\<exists>t \<in> set ts. extract_tag L b t = Raised)"
  by (induction ts) (auto split: tag_result.splits)

lemma extract_loop_set:
  "extract_loop L b ts = Some fs \<Longrightarrow>
     f \<in> set fs \<longleftrightarrow> (\<exists>t \<in> set ts. extract_tag L b t = Kept f)"
  by (induction ts arbitrary: fs) (auto split: tag_result.splits)

lemma file_type_of_cases:
  "file_type_of u \<in> {''document'', ''image'', ''audio'', ''video''}"
  "file_type_of u = ''image'' \<longleftrightarrow> lower (snd (splitext u)) \<in> set IMAGE_EXTS"
  "file_type_of u = ''audio'' \<longleftrightarrow> lower (snd (splitext u)) \<in> set AUDIO_EXTS"
  "file_type_of u = ''video'' \<longleftrightarrow> lower (snd (splitext u)) \<in> set VIDEO_EXTS"
  "file_type_of u = ''document'' \<longleftrightarrow>
     lower (snd (splitext u)) \<notin> set IMAGE_EXTS \<union> set AUDIO_EXTS \<union> set VIDEO_EXTS"
  by (auto simp: file_type_of_def Let_def IMAGE_EXTS_def AUDIO_EXTS_def VIDEO_EXTS_def)

lemma extract_files_None_iff:
  "extract_files L html base_url = None \<longleftrightarrow>
     bs4_tags L html = None
     \<or> (\<exists>soup t r. bs4_tags L html = Some soup \<and> t \<in> set soup
           \<and> tag_name t \<in> set [''a'', ''img'', ''audio'', ''video'', ''source'']
           \<and> py_or (tag_get t ''href'') (tag_get t ''src'') = Some r \<and> r \<noteq> []
           \<and> urljoin L base_url r = None)"
proof (cases "bs4_tags L html")
  case None
  then show ?thesis by (simp add: extract_files_def)
next
  case (Some soup)
  have "extract_files L html base_url = None \<longleftrightarrow>
      (\<exists>t. t \<in> set soup
         \<and> tag_name t \<in> set [''a'', ''img'', ''audio'', ''video'', ''source'']
         \<and> extract_tag L base_url t = Raised)"
    unfolding extract_files_def Some option.case extract_loop_None_iff find_all_def set_filter
    by blast
  then show ?thesis
    unfolding extract_tag_Raised_iff Some by blast
qed

lemma extract_files_set:
  assumes "extract_files L html base_url = Some fs"
  shows "f \<in> set fs \<longleftrightarrow>
     (\<exists>soup t r u. bs4_tags L html = Some soup \<and> t \<in> set soup
        \<and> tag_name t \<in> set [''a'', ''img'', ''audio'', ''video'', ''source'']
        \<and> py_or (tag_get t ''href'') (tag_get t ''src'') = Some r \<and> r \<noteq> []
        \<and> urljoin L base_url r = Some u
        \<and> (\<exists>ext \<in> set ALLOWED_EXTS. endswith (lower u) ext)
        \<and> f = \<lparr>file_name = or_str (tag_get t ''alt'') (or_str (tag_get t ''title'') (basename u)),
                file_url = u,
                file_type = file_type_of u\<rparr>)"
proof -
  from assms obtain soup where s: "bs4_tags L html = Some soup"
    and l: "extract_loop L base_url
              (find_all soup [''a'', ''img'', ''audio'', ''video'', ''source'']) = Some fs"
    by (auto simp: extract_files_def split: option.splits)
  have "f \<in> set fs \<longleftrightarrow>
      (\<exists>t. t \<in> set soup
         \<and> tag_name t \<in> set [''a'', ''img'', ''audio'', ''video'', ''source'']
         \<and> extract_tag L base_url t = Kept f)"
    unfolding extract_loop_set[OF l] find_all_def set_filter by blast
  then show ?thesis
    unfolding extract_tag_Kept_iff s by blast
qed

text \<open>
  Claim C5, as amended. \<open>extract_files\<close> raises, and keeps nothing, exactly when the
  parser raises or \<open>urljoin\<close> raises on the non-empty \<open>href\<close> (or else \<open>src\<close>) of some
  \<open>a\<close>, \<open>img\<close>, \<open>audio\<close>, \<open>video\<close> or \<open>source\<close> tag. When it returns, a file is in the
  result exactly when some such tag has a non-empty \<open>href\<close> (or else \<open>src\<close>) whose
  resolution against the base URL, lower-cased, ends with an extension of the
  allow-list; the test is on the whole URL string. Its name is \<open>alt\<close>, else \<open>title\<close>,
  else the base name of the URL. Its type is \<open>image\<close>, \<open>audio\<close> or \<open>video\<close> exactly
  when the extension that \<open>os.path.splitext\<close> finds in the URL string is in that
  list, and \<open>document\<close> in every other case.
\<close>

theorem extract_files_keeps_allowed_suffix:
  "(extract_files L html base_url = None \<longleftrightarrow>
      bs4_tags L html = None
      \<or> (\<exists>soup t r. bs4_tags L html = Some soup \<and> t \<in> set soup
            \<and> tag_name t \<in> set [''a'', ''img'', ''audio'', ''video'', ''source'']
            \<and> py_or (tag_get t ''href'') (tag_get t ''src'') = Some r \<and> r \<noteq> []
            \<and> urljoin L base_url r = None))
   \<and> (\<forall>fs. extract_files L html base_url = Some fs \<longrightarrow>
        (f \<in> set fs \<longleftrightarrow>
           (\<exists>soup t r u. bs4_tags L html = Some soup \<and> t \<in> set soup
              \<and> tag_name t \<in> set [''a'', ''img'', ''audio'', ''video'', ''source'']
              \<and> py_or (tag_get t ''href'') (tag_get t ''src'') = Some r \<and> r \<noteq> []
              \<and> urljoin L base_url r = Some u
              \<and> (\<exists>ext \<in> set ALLOWED_EXTS. endswith (lower u) ext)
              \<and> f = \<lparr>file_name = or_str (tag_get t ''alt'')
                                    (or_str (tag_get t ''title'') (basename u)),
                      file_url = u,
                      file_type = file_type_of u\<rparr>))
      \<and> (f \<in> set fs \<longrightarrow>
           (\<exists>ext \<in> set ALLOWED_EXTS. endswith (lower (file_url f)) ext)
         \<and> file_type f \<in> {''document'', ''image'', ''audio'', ''video''}
         \<and> (file_type f = ''image'' \<longleftrightarrow> lower (snd (splitext (file_url f))) \<in> set IMAGE_EXTS)
         \<and> (file_type f = ''audio'' \<longleftrightarrow> lower (snd (splitext (file_url f))) \<in> set AUDIO_EXTS)
         \<and> (file_type f = ''video'' \<longleftrightarrow> lower (snd (splitext (file_url f))) \<in> set VIDEO_EXTS)
         \<and> (file_type f = ''document'' \<longleftrightarrow>
              lower (snd (splitext (file_url f)))
                \<notin> set IMAGE_EXTS \<union> set AUDIO_EXTS \<union> set VIDEO_EXTS)))"
proof (intro conjI impI allI)
  show "extract_files L html base_url = None \<longleftrightarrow>
      bs4_tags L html = None
      \<or> (\<exists>soup t r. bs4_tags L html = Some soup \<and> t \<in> set soup
            \<and> tag_name t \<in> set [''a'', ''img'', ''audio'', ''video'', ''source'']
            \<and> py_or (tag_get t ''href'') (tag_get t ''src'') = Some r \<and> r \<noteq> []
            \<and> urljoin L base_url r = None)"
    by (rule extract_files_None_iff)
next
  fix fs
  assume e: "extract_files L html base_url = Some fs"
  show "f \<in> set fs \<longleftrightarrow>
           (\<exists>soup t r u. bs4_tags L html = Some soup \<and> t \<in> set soup
              \<and> tag_name t \<in> set [''a'', ''img'', ''audio'', ''video'', ''source'']
              \<and> py_or (tag_get t ''href'') (tag_get t ''src'') = Some r \<and> r \<noteq> []
              \<and> urljoin L base_url r = Some u
              \<and> (\<exists>ext \<in> set ALLOWED_EXTS. endswith (lower u) ext)
              \<and> f = \<lparr>file_name = or_str (tag_get t ''alt'')
                                    (or_str (tag_get t ''title'') (basename u)),
                      file_url = u,
                      file_type = file_type_of u\<rparr>)"
    by (rule extract_files_set[OF e])
  assume "f \<in> set fs"
  then obtain t u where
    k: "\<exists>ext \<in> set ALLOWED_EXTS. endswith (lower u) ext"
    and f: "f = \<lparr>file_name = or_str (tag_get t ''alt'') (or_str (tag_get t ''title'') (basename u)),
                file_url = u,
                file_type = file_type_of u\<rparr>"
    unfolding extract_files_set[OF e] by blast
  have u: "file_url f = u" "file_type f = file_type_of (file_url f)"
    using f by simp_all
  show "\<exists>ext \<in> set ALLOWED_EXTS. endswith (lower (file_url f)) ext"
    using k u by simp
  show "file_type f \<in> {''document'', ''image'', ''audio'', ''video''}"
    unfolding u(2) by (rule file_type_of_cases)
  show "file_type f = ''image'' \<longleftrightarrow> lower (snd (splitext (file_url f))) \<in> set IMAGE_EXTS"
    unfolding u(2) by (rule file_type_of_cases)
  show "file_type f = ''audio'' \<longleftrightarrow> lower (snd (splitext (file_url f))) \<in> set AUDIO_EXTS"
    unfolding u(2) by (rule file_type_of_cases)
  show "file_type f = ''video'' \<longleftrightarrow> lower (snd (splitext (file_url f))) \<in> set VIDEO_EXTS"
    unfolding u(2) by (rule file_type_of_cases)
  show "file_type f = ''document'' \<longleftrightarrow>
           lower (snd (splitext (file_url f)))
             \<notin> set IMAGE_EXTS \<union> set AUDIO_EXTS \<union> set VIDEO_EXTS"
    unfolding u(2) by (rule file_type_of_cases)
qed

theorem extract_files_keeps_allowed_suffix_witness:
  "extract_files ex_lib body1 ex_url = Some [d1_file]
   \<and> d1_file \<in> set [d1_file]
   \<and> (\<exists>soup t r u. bs4_tags ex_lib body1 = Some soup \<and> t \<in> set soup
        \<and> tag_name t \<in> set [''a'', ''img'', ''audio'', ''video'', ''source'']
        \<and> py_or (tag_get t ''href'') (tag_get t ''src'') = Some r \<and> r \<noteq> []
        \<and> urljoin ex_lib ex_url r = Some u
        \<and> (\<exists>ext \<in> set ALLOWED_EXTS. endswith (lower u) ext)
        \<and> d1_file = \<lparr>file_name = or_str (tag_get t ''alt'')
                                    (or_str (tag_get t ''title'') (basename u)),
                      file_url = u,
                      file_type = file_type_of u\<rparr>)
   \<and> file_type d1_file \<in> {''document'', ''image'', ''audio'', ''video''}
   \<and> bs4_tags ex_lib body6 = Some [element ''html'', element ''body'', link ''//[x.pdf'',
                                     link ''d1.pdf'']
   \<and> urljoin ex_lib ex_url ''//[x.pdf'' = None
   \<and> extract_files ex_lib body6 ex_url = None"
proof -
  have e: "extract_files ex_lib body1 ex_url = Some [d1_file]"
    by code_simp
  have m: "d1_file \<in> set [d1_file]"
    by simp
  note T = extract_files_keeps_allowed_suffix
             [where L = ex_lib and html = body1 and base_url = ex_url and f = d1_file,
              THEN conjunct2, rule_format, OF e]
  have bs: "bs4_tags ex_lib body6 = Some [element ''html'', element ''body'', link ''//[x.pdf'',
                                     link ''d1.pdf'']"
    by code_simp
  have uj: "urljoin ex_lib ex_url ''//[x.pdf'' = None"
    by code_simp
  have py: "py_or (tag_get (link ''//[x.pdf'') ''href'') (tag_get (link ''//[x.pdf'') ''src'')
              = Some ''//[x.pdf''"
    by code_simp
  have tn: "tag_name (link ''//[x.pdf'') \<in> set [''a'', ''img'', ''audio'', ''video'', ''source'']"
    by (simp add: link_def)
  have mem: "link ''//[x.pdf'' \<in> set [element ''html'', element ''body'', link ''//[x.pdf'',
                                     link ''d1.pdf'']"
    by simp
  have ne: "''//[x.pdf'' \<noteq> []"
    by simp
  have r: "bs4_tags ex_lib body6 = None
      \<or> (\<exists>soup t r. bs4_tags ex_lib body6 = Some soup \<and> t \<in> set soup
            \<and> tag_name t \<in> set [''a'', ''img'', ''audio'', ''video'', ''source'']
            \<and> py_or (tag_get t ''href'') (tag_get t ''src'') = Some r \<and> r \<noteq> []
            \<and> urljoin ex_lib ex_url r = None)"
    by (intro disjI2 exI conjI) (rule bs mem tn py ne uj)+
  note N = extract_files_keeps_allowed_suffix
             [where L = ex_lib and html = body6 and base_url = ex_url and f = d1_file,
              THEN conjunct1, THEN iffD2, OF r]
  show ?thesis
    by (intro conjI)
       (rule e m T[THEN conjunct1, THEN iffD1, OF m]
             T[THEN conjunct2, THEN mp, OF m, THEN conjunct2, THEN conjunct1] bs uj N)+
qed

text \<open>
  The claim as stated fails: a link whose path is \<open>/view\<close> (the \<open>.pdf\<close> is in the
  query) and a link to the dot file \<open>.pdf\<close> are both kept, and neither has a path
  extension in the allow-list.
\<close>

theorem extract_files_path_extension_counterexample:
  "extract_files ex_lib body5 ex_url =
     Some [\<lparr>file_name = ''view?a.pdf'', file_url = ''http://h/view?a.pdf'',
             file_type = ''document''\<rparr>,
           \<lparr>file_name = ''.pdf'', file_url = ''http://h/.pdf'', file_type = ''document''\<rparr>]
   \<and> urlparse_path ex_lib ''http://h/view?a.pdf'' = Some ''/view''
   \<and> snd (splitext ''/view'') = []
   \<and> snd (splitext ''http://h/.pdf'') = []
   \<and> map_option (\<lambda>p. snd (splitext p)) (urlparse_path ex_lib ''http://h/.pdf'') = Some []
   \<and> [] \<notin> set ALLOWED_EXTS"
  by code_simp

section \<open>What \<open>track\<close> registers\<close>

lemma track_accepted:
  assumes "snd (track L W s m) \<noteq> error_reply"
  obtains cmd u a rest n where
    "split_ws (msg_text m) = cmd # u # a # rest" "py_int a = Some n"
    "add_job_ok W (job_id L (chat_id m) u) n (''night'' \<in> set rest)" "save_ok W"
    "track L W s m =
       (save_json (store_tracked
          (s\<lparr>jobs := (jobs s)(job_id L (chat_id m) u \<mapsto>
                \<lparr>job_url = u, job_chat = chat_id m, job_minutes = n,
                 job_night = (''night'' \<in> set rest)\<rparr>)\<rparr>)
          (chat_id m) u
          \<lparr>hash = [], interval = n, night_mode = (''night'' \<in> set rest), files = []\<rparr>),
        ''Now tracking '' @ u @ '' every '' @ str_int n @ '' minutes'')"
  using assms
  by (auto simp: track_def Let_def split: list.splits option.splits if_splits)

lemma store_tracked_jobs [simp]: "jobs (store_tracked s c u t) = jobs s"
  by (simp add: store_tracked_def)

lemma lookup_jobs_update [simp]: "lookup (user_data (s\<lparr>jobs := j\<rparr>)) c u = lookup (user_data s) c u"
  by (simp add: lookup_def)

lemma track_jobs:
  assumes "snd (track L W s m) \<noteq> error_reply"
    and "split_ws (msg_text m) = cmd # u # a # rest"
  shows "\<exists>j. jobs (fst (track L W s m)) = (jobs s)(job_id L (chat_id m) u \<mapsto> j)
            \<and> job_url j = u \<and> job_chat j = chat_id m"
proof -
  from assms(1) obtain cmd' u0 a' rest' n where
    h: "split_ws (msg_text m) = cmd' # u0 # a' # rest'"
    and t: "track L W s m =
       (save_json (store_tracked
          (s\<lparr>jobs := (jobs s)(job_id L (chat_id m) u0 \<mapsto>
                \<lparr>job_url = u0, job_chat = chat_id m, job_minutes = n,
                 job_night = (''night'' \<in> set rest')\<rparr>)\<rparr>)
          (chat_id m) u0
          \<lparr>hash = [], interval = n, night_mode = (''night'' \<in> set rest'), files = []\<rparr>),
        ''Now tracking '' @ u0 @ '' every '' @ str_int n @ '' minutes'')"
    by (rule track_accepted)
  from h assms(2) have u0: "u0 = u" by simp
  let ?j = "\<lparr>job_url = u, job_chat = chat_id m, job_minutes = n,
            job_night = (''night'' \<in> set rest')\<rparr>"
  have "jobs (fst (track L W s m)) = (jobs s)(job_id L (chat_id m) u \<mapsto> ?j)"
    using t u0 by simp
  then show ?thesis by (intro exI[of _ ?j]) simp
qed

lemma empty_state_invariants:
  "jobs_filed_by_id L empty_state \<and> exactly_one_job empty_state
   \<and> (\<forall>c' u'. lookup (user_data empty_state) c' u' \<noteq> None \<and> job_id L c' u' = i
         \<longrightarrow> c' = c \<and> u' = u)"
  by (simp add: jobs_filed_by_id_def exactly_one_job_def empty_state_def lookup_def)

lemma empty_state_lookup: "lookup (user_data empty_state) c u = None"
  by (simp add: empty_state_def lookup_def)

lemma single_target_no_collision:
  assumes "\<forall>c' u'. (c', u') \<noteq> (c0, p) \<longrightarrow> lookup d c' u' = None"
    and "job_id L c0 p \<noteq> i"
  shows "\<forall>c' u'. lookup d c' u' \<noteq> None \<and> job_id L c' u' = i \<longrightarrow> c' = c1 \<and> u' = h"
proof (intro allI impI)
  fix c' u'
  assume a: "lookup d c' u' \<noteq> None \<and> job_id L c' u' = i"
  have "c' = c0 \<and> u' = p" using assms(1)[rule_format, of c' u'] a by auto
  with a assms(2) show "c' = c1 \<and> u' = h" by simp
qed
lemma two_targets_no_collision:
  assumes "\<forall>c' u'. (c', u') \<noteq> (c1, q) \<longrightarrow> lookup d2 c' u' = lookup d1 c' u'"
    and "\<forall>c' u'. (c', u') \<noteq> (c0, p) \<longrightarrow> lookup d1 c' u' = None"
    and "job_id L c1 q \<noteq> i"
  shows "\<forall>c' u'. lookup d2 c' u' \<noteq> None \<and> job_id L c' u' = i \<longrightarrow> c' = c0 \<and> u' = p"
proof (intro allI impI)
  fix c' u'
  assume a: "lookup d2 c' u' \<noteq> None \<and> job_id L c' u' = i"
  with assms(3) have ne: "(c', u') \<noteq> (c1, q)" by auto
  with a assms(1)[rule_format, of c' u'] have "lookup d1 c' u' \<noteq> None" by simp
  with assms(2)[rule_format, of c' u'] show "c' = c0 \<and> u' = p" by auto
qed

text \<open>
  Claim C6, as amended. A track request that is accepted (its reply is not the error
  reply) has at least three words, the third parses as an integer, and exactly that
  integer, whatever its sign, is stored as the interval of the target and as the
  minutes of the job. \<open>track\<close> checks no bound.
\<close>

theorem track_stores_parsed_interval:
  assumes "snd (track L W s m) \<noteq> error_reply"
  shows "\<exists>cmd u a rest n. split_ws (msg_text m) = cmd # u # a # rest \<and> py_int a = Some n
      \<and> lookup (user_data_file (fst (track L W s m))) (chat_id m) u =
          Some \<lparr>hash = [], interval = n, night_mode = (''night'' \<in> set rest), files = []\<rparr>
      \<and> jobs (fst (track L W s m)) (job_id L (chat_id m) u) =
          Some \<lparr>job_url = u, job_chat = chat_id m, job_minutes = n,
                job_night = (''night'' \<in> set rest)\<rparr>
      \<and> snd (track L W s m) = ''Now tracking '' @ u @ '' every '' @ str_int n @ '' minutes''"
proof -
  from assms obtain cmd u a rest n where
    h: "split_ws (msg_text m) = cmd # u # a # rest" "py_int a = Some n"
    and t: "track L W s m =
       (save_json (store_tracked
          (s\<lparr>jobs := (jobs s)(job_id L (chat_id m) u \<mapsto>
                \<lparr>job_url = u, job_chat = chat_id m, job_minutes = n,
                 job_night = (''night'' \<in> set rest)\<rparr>)\<rparr>)
          (chat_id m) u
          \<lparr>hash = [], interval = n, night_mode = (''night'' \<in> set rest), files = []\<rparr>),
        ''Now tracking '' @ u @ '' every '' @ str_int n @ '' minutes'')"
    by (rule track_accepted)
  show ?thesis
    using h by (intro exI[of _ cmd] exI[of _ u] exI[of _ a] exI[of _ rest] exI[of _ n])
      (simp add: t lookup_store_tracked)
qed

theorem track_stores_parsed_interval_witness:
  "snd (track ex_lib (ex_world body1 ok_response) empty_state
          (track_message ''/track http://h/ 7 night'')) \<noteq> error_reply
   \<and> (\<exists>cmd u a rest n.
         split_ws (msg_text (track_message ''/track http://h/ 7 night'')) = cmd # u # a # rest
       \<and> py_int a = Some n
       \<and> lookup (user_data_file (fst (track ex_lib (ex_world body1 ok_response) empty_state
            (track_message ''/track http://h/ 7 night''))))
            (chat_id (track_message ''/track http://h/ 7 night'')) u
           = Some \<lparr>hash = [], interval = n, night_mode = (''night'' \<in> set rest), files = []\<rparr>
       \<and> n = 7)"
proof -
  let ?m = "track_message ''/track http://h/ 7 night''"
  have acc: "snd (track ex_lib (ex_world body1 ok_response) empty_state ?m) \<noteq> error_reply"
    by code_simp
  have sp: "split_ws (msg_text ?m) = [''/track'', ''http://h/'', ''7'', ''night'']"
    by code_simp
  have pi: "py_int ''7'' = Some 7" by code_simp
  from track_stores_parsed_interval[OF acc] obtain cmd u a rest n where
    h: "split_ws (msg_text ?m) = cmd # u # a # rest" "py_int a = Some n"
      "lookup (user_data_file (fst (track ex_lib (ex_world body1 ok_response) empty_state ?m)))
         (chat_id ?m) u
        = Some \<lparr>hash = [], interval = n, night_mode = (''night'' \<in> set rest), files = []\<rparr>"
    by blast
  from h(1) sp have "a = ''7''" by simp
  with h(2) pi have "n = 7" by simp
  with acc h show ?thesis by blast
qed

text \<open>
  The claim as stated fails: the intervals 0 and -5 are accepted and stored.
\<close>

theorem zero_interval_accepted_counterexample: "snd (track ex_lib (ex_world body1 ok_response) empty_state
              (track_message ''/track http://h/ 0''))
      = ''Now tracking http://h/ every 0 minutes''
   \<and> map_option interval (lookup (user_data_file (fst (track ex_lib (ex_world body1 ok_response)
         empty_state (track_message ''/track http://h/ 0'')))) 1 ''http://h/'') = Some 0
   \<and> map_option job_minutes (jobs (fst (track ex_lib (ex_world body1 ok_response)
         empty_state (track_message ''/track http://h/ 0''))) (job_id ex_lib 1 ''http://h/''))
       = Some 0
   \<and> map_option interval (lookup (user_data_file (fst (track ex_lib (ex_world body1 ok_response)
         empty_state (track_message ''/track http://h/ -5'')))) 1 ''http://h/'') = Some (- 5)"
  by code_simp

text \<open>
  Claim C7, as amended. An accepted track request files, under \<open>job_id\<close> of the
  chat and the URL, the job built from the request (its URL, its chat, the interval
  parsed from the third word and the night flag), replacing whatever job was there
  and leaving every other job alone; the stored target becomes the entry built from
  the request (empty hash, that interval and flag, no files), in memory and in the
  file, and every other target is left alone. A second request for the same chat and
  URL therefore resets the interval, the flag, the hash and the file list. If every
  job was filed under its own identifier, every target had exactly one job, and no
  other tracked target has the identifier of the new one, then the same holds
  afterwards.
\<close>

theorem track_replaces_job:
  assumes "snd (track L W s m) \<noteq> error_reply"
    and "split_ws (msg_text m) = cmd # u # a # rest"
  shows "(\<exists>n. py_int a = Some n
            \<and> jobs (fst (track L W s m)) = (jobs s)(job_id L (chat_id m) u \<mapsto>
                 \<lparr>job_url = u, job_chat = chat_id m, job_minutes = n,
                  job_night = (''night'' \<in> set rest)\<rparr>)
            \<and> lookup (user_data (fst (track L W s m))) (chat_id m) u =
                 Some \<lparr>hash = [], interval = n, night_mode = (''night'' \<in> set rest),
                       files = []\<rparr>)
       \<and> user_data_file (fst (track L W s m)) = user_data (fst (track L W s m))
       \<and> (\<forall>c' u'. (c', u') \<noteq> (chat_id m, u) \<longrightarrow>
             lookup (user_data (fst (track L W s m))) c' u' = lookup (user_data s) c' u')
       \<and> (jobs_filed_by_id L s \<and> exactly_one_job s
            \<and> (\<forall>c' u'. lookup (user_data s) c' u' \<noteq> None
                  \<and> job_id L c' u' = job_id L (chat_id m) u \<longrightarrow> c' = chat_id m \<and> u' = u)
           \<longrightarrow> jobs_filed_by_id L (fst (track L W s m)) \<and> exactly_one_job (fst (track L W s m)))"
proof -
  from assms(1) obtain cmd' u0 a' rest' n where
    h: "split_ws (msg_text m) = cmd' # u0 # a' # rest'" "py_int a' = Some n"
    and t: "track L W s m =
       (save_json (store_tracked
          (s\<lparr>jobs := (jobs s)(job_id L (chat_id m) u0 \<mapsto>
                \<lparr>job_url = u0, job_chat = chat_id m, job_minutes = n,
                 job_night = (''night'' \<in> set rest')\<rparr>)\<rparr>)
          (chat_id m) u0
          \<lparr>hash = [], interval = n, night_mode = (''night'' \<in> set rest'), files = []\<rparr>),
        ''Now tracking '' @ u0 @ '' every '' @ str_int n @ '' minutes'')"
    by (rule track_accepted)
  from h assms(2) have u0: "u0 = u" "a' = a" "rest' = rest" by simp_all
  let ?s' = "fst (track L W s m)"
  let ?c = "chat_id m"
  let ?i = "job_id L ?c u"
  let ?j = "\<lparr>job_url = u, job_chat = ?c, job_minutes = n, job_night = (''night'' \<in> set rest)\<rparr>"
  let ?e = "\<lparr>hash = [], interval = n, night_mode = (''night'' \<in> set rest), files = []\<rparr>"
  have J: "jobs ?s' = (jobs s)(?i \<mapsto> ?j)"
    using t u0 by simp
  have D: "lookup (user_data ?s') c' u' =
             (if c' = ?c \<and> u' = u then Some ?e else lookup (user_data s) c' u')" for c' u'
    using t u0 by (simp add: lookup_store_tracked)
  have a: "\<exists>n. py_int a = Some n
            \<and> jobs ?s' = (jobs s)(?i \<mapsto>
                 \<lparr>job_url = u, job_chat = ?c, job_minutes = n,
                  job_night = (''night'' \<in> set rest)\<rparr>)
            \<and> lookup (user_data ?s') ?c u =
                 Some \<lparr>hash = [], interval = n, night_mode = (''night'' \<in> set rest),
                       files = []\<rparr>"
    using h(2) u0(2) J D[of ?c u] by (intro exI[of _ n]) simp
  have b: "user_data_file ?s' = user_data ?s'"
    using t by simp
  have c: "\<forall>c' u'. (c', u') \<noteq> (?c, u) \<longrightarrow>
             lookup (user_data ?s') c' u' = lookup (user_data s) c' u'"
    using D by auto
  have d: "jobs_filed_by_id L ?s' \<and> exactly_one_job ?s'"
    if filed: "jobs_filed_by_id L s" and one: "exactly_one_job s"
      and nc: "\<forall>c' u'. lookup (user_data s) c' u' \<noteq> None
                  \<and> job_id L c' u' = ?i \<longrightarrow> c' = ?c \<and> u' = u"
  proof
    show f': "jobs_filed_by_id L ?s'"
      using filed unfolding jobs_filed_by_id_def J by auto
    show "exactly_one_job ?s'"
      unfolding exactly_one_job_def
    proof (intro allI impI)
      fix c' u'
      assume tr: "lookup (user_data ?s') c' u' \<noteq> None"
      show "\<exists>!i. \<exists>j. jobs ?s' i = Some j \<and> job_url j = u' \<and> job_chat j = c'"
      proof (cases "c' = ?c \<and> u' = u")
        case True
        have ex: "\<exists>j. jobs ?s' ?i = Some j \<and> job_url j = u' \<and> job_chat j = c'"
          using J True by simp
        have un: "i = ?i" if "\<exists>j. jobs ?s' i = Some j \<and> job_url j = u' \<and> job_chat j = c'" for i
        proof -
          from that obtain j where j: "jobs ?s' i = Some j" "job_url j = u'" "job_chat j = c'"
            by blast
          from f' j(1) have "i = job_id L (job_chat j) (job_url j)"
            unfolding jobs_filed_by_id_def by blast
          with j True show ?thesis by simp
        qed
        show ?thesis using ex un by blast
      next
        case False
        with tr D have old: "lookup (user_data s) c' u' \<noteq> None" by auto
        then obtain i where
          i: "\<exists>j. jobs s i = Some j \<and> job_url j = u' \<and> job_chat j = c'"
          and iu: "\<And>k. \<exists>j. jobs s k = Some j \<and> job_url j = u' \<and> job_chat j = c' \<Longrightarrow> k = i"
          using one unfolding exactly_one_job_def by blast
        from i filed have "i = job_id L c' u'" unfolding jobs_filed_by_id_def by auto
        with nc old False have ne: "i \<noteq> ?i" by auto
        have ex: "\<exists>j. jobs ?s' i = Some j \<and> job_url j = u' \<and> job_chat j = c'"
          using i ne J by simp
        have un: "k = i" if k: "\<exists>j. jobs ?s' k = Some j \<and> job_url j = u' \<and> job_chat j = c'" for k
        proof (cases "k = ?i")
          case True
          with k J False show ?thesis by auto
        next
          case False
          with k J have "\<exists>j. jobs s k = Some j \<and> job_url j = u' \<and> job_chat j = c'" by simp
          then show ?thesis by (rule iu)
        qed
        show ?thesis using ex un by blast
      qed
    qed
  qed
  show ?thesis using a b c d by blast
qed

theorem track_replaces_job_witness:
  "snd (track ex_lib (ex_world body1 ok_response) two_tracked
          (track_message ''/track http://h/p1569 9 night'')) \<noteq> error_reply
   \<and> split_ws (msg_text (track_message ''/track http://h/p1569 9 night''))
       = [''/track'', ''http://h/p1569'', ''9'', ''night'']
   \<and> jobs_filed_by_id ex_lib two_tracked \<and> exactly_one_job two_tracked
   \<and> job_id ex_lib 1 ''http://h/'' \<noteq> job_id ex_lib 1 ''http://h/p1569''
   \<and> lookup (user_data two_tracked) 1 ''http://h/p1569''
       = Some \<lparr>hash = [], interval = 5, night_mode = False, files = []\<rparr>
   \<and> jobs two_tracked (job_id ex_lib 1 ''http://h/p1569'')
       = Some \<lparr>job_url = ''http://h/p1569'', job_chat = 1, job_minutes = 5, job_night = False\<rparr>
   \<and> lookup (user_data retracked) 1 ''http://h/p1569''
       = Some \<lparr>hash = [], interval = 9, night_mode = True, files = []\<rparr>
   \<and> jobs retracked = (jobs two_tracked)(job_id ex_lib 1 ''http://h/p1569'' \<mapsto>
         \<lparr>job_url = ''http://h/p1569'', job_chat = 1, job_minutes = 9, job_night = True\<rparr>)
   \<and> user_data_file retracked = user_data retracked
   \<and> lookup (user_data retracked) 1 ''http://h/'' = lookup (user_data two_tracked) 1 ''http://h/''
   \<and> jobs_filed_by_id ex_lib retracked \<and> exactly_one_job retracked"
proof -
  let ?W = "ex_world body1 ok_response"
  let ?m1 = "track_message ''/track http://h/p1569 5''"
  let ?m2 = "track_message ''/track http://h/ 7 night''"
  let ?m3 = "track_message ''/track http://h/p1569 9 night''"
  have acc: "snd (track ex_lib ?W empty_state ?m1) \<noteq> error_reply"
    "snd (track ex_lib ?W first_tracked ?m2) \<noteq> error_reply"
    "snd (track ex_lib ?W two_tracked ?m3) \<noteq> error_reply"
    by code_simp+
  have sp: "split_ws (msg_text ?m1) = [''/track'', ''http://h/p1569'', ''5'']"
    "split_ws (msg_text ?m2) = [''/track'', ''http://h/'', ''7'', ''night'']"
    "split_ws (msg_text ?m3) = [''/track'', ''http://h/p1569'', ''9'', ''night'']"
    by code_simp+
  have c: "chat_id ?m1 = 1" "chat_id ?m2 = 1" "chat_id ?m3 = 1"
    by (simp_all add: track_message_def)
  have ids: "job_id ex_lib 1 ''http://h/p1569'' \<noteq> job_id ex_lib 1 ''http://h/''"
    by code_simp
  have s1: "fst (track ex_lib ?W empty_state ?m1) = first_tracked"
    by (rule first_tracked_def[symmetric])
  have s2: "fst (track ex_lib ?W first_tracked ?m2) = two_tracked"
    by (rule two_tracked_def[symmetric])
  have s3: "fst (track ex_lib ?W two_tracked ?m3) = retracked"
    by (rule retracked_def[symmetric])
  have pi: "py_int ''5'' = Some 5" "py_int ''9'' = Some 9"
    by code_simp+
  have nt: "(''night'' \<in> set []) = False" "(''night'' \<in> set [''night'']) = True"
    by simp_all
  note T1 = track_replaces_job[OF acc(1) sp(1), unfolded s1 c nt]
  note T2 = track_replaces_job[OF acc(2) sp(2), unfolded s2 c nt]
  note T3 = track_replaces_job[OF acc(3) sp(3), unfolded s3 c nt]
  note tl = conjunct2[THEN conjunct2]
  note inv1 = T1[THEN tl, THEN conjunct2, THEN mp, OF empty_state_invariants]
  note keep1 = T1[THEN tl, THEN conjunct1, unfolded empty_state_lookup]
  note nc1 = single_target_no_collision[OF keep1 ids, of 1 "''http://h/''"]
  note inv2 = T2[THEN tl, THEN conjunct2, THEN mp, OF conjI,
                 OF inv1[THEN conjunct1] conjI, OF inv1[THEN conjunct2] nc1]
  note keep2 = T2[THEN tl, THEN conjunct1]
  note nc2 = two_targets_no_collision[OF keep2 keep1 ids[symmetric]]
  note inv3 = T3[THEN tl, THEN conjunct2, THEN mp, OF conjI,
                 OF inv2[THEN conjunct1] conjI, OF inv2[THEN conjunct2] nc2]
  note keep3 = T3[THEN tl, THEN conjunct1]
  from T1[THEN conjunct1] obtain n1 where
    n1: "py_int ''5'' = Some n1"
    and j1: "jobs first_tracked = (jobs empty_state)(job_id ex_lib 1 ''http://h/p1569'' \<mapsto>
               \<lparr>job_url = ''http://h/p1569'', job_chat = 1, job_minutes = n1, job_night = False\<rparr>)"
    and d1: "lookup (user_data first_tracked) 1 ''http://h/p1569''
               = Some \<lparr>hash = [], interval = n1, night_mode = False, files = []\<rparr>"
    by (elim exE conjE)
  from n1 pi(1) have n15: "n1 = 5" by simp
  from T2[THEN conjunct1] obtain n2 j2 where
    j2: "jobs two_tracked = (jobs first_tracked)(job_id ex_lib 1 ''http://h/'' \<mapsto> j2)"
    by (elim exE conjE)
  from T3[THEN conjunct1] obtain n3 where
    n3: "py_int ''9'' = Some n3"
    and j3: "jobs retracked = (jobs two_tracked)(job_id ex_lib 1 ''http://h/p1569'' \<mapsto>
               \<lparr>job_url = ''http://h/p1569'', job_chat = 1, job_minutes = n3, job_night = True\<rparr>)"
    and d3: "lookup (user_data retracked) 1 ''http://h/p1569''
               = Some \<lparr>hash = [], interval = n3, night_mode = True, files = []\<rparr>"
    by (elim exE conjE)
  from n3 pi(2) have n39: "n3 = 9" by simp
  have ne: "(1::int, ''http://h/p1569'') \<noteq> (1, ''http://h/'')"
    "(1::int, ''http://h/'') \<noteq> (1, ''http://h/p1569'')"
    by simp_all
  have old: "lookup (user_data two_tracked) 1 ''http://h/p1569''
       = Some \<lparr>hash = [], interval = 5, night_mode = False, files = []\<rparr>"
    unfolding keep2[rule_format, OF ne(1)] d1 n15 by (rule refl)
  have oldj: "jobs two_tracked (job_id ex_lib 1 ''http://h/p1569'')
       = Some \<lparr>job_url = ''http://h/p1569'', job_chat = 1, job_minutes = 5, job_night = False\<rparr>"
    unfolding j2 j1 n15 using ids by simp
  show ?thesis
    by (intro conjI)
      (rule acc(3) sp(3) inv2[THEN conjunct1] inv2[THEN conjunct2] ids[symmetric] old oldj
            d3[unfolded n39] j3[unfolded n39] T3[THEN conjunct2, THEN conjunct1]
            keep3[rule_format, OF ne(2)] inv3[THEN conjunct1] inv3[THEN conjunct2])+
qed

text \<open>
  The claim as stated fails: the two URLs have the same job identifier, so after
  both are tracked the only job polls the second URL and the first target has none.
\<close>

theorem one_job_per_target_counterexample:
  "job_id ex_lib 1 ''http://h/p1569'' = job_id ex_lib 1 ''http://h/p6288''
   \<and> map_option interval (lookup (user_data collide_state) 1 ''http://h/p1569'') = Some 5
   \<and> map_option interval (lookup (user_data collide_state) 1 ''http://h/p6288'') = Some 5
   \<and> map_option job_url (jobs collide_state (job_id ex_lib 1 ''http://h/p1569''))
       = Some ''http://h/p6288''
   \<and> \<not> exactly_one_job collide_state"
proof -
  let ?W = "ex_world body1 ok_response"
  let ?m1 = "track_message ''/track http://h/p1569 5''"
  let ?m2 = "track_message ''/track http://h/p6288 5''"
  have ids: "job_id ex_lib 1 ''http://h/p1569'' = ''1_36f02f''"
    "job_id ex_lib 1 ''http://h/p6288'' = ''1_36f02f''"
    by code_simp+
  have acc: "snd (track ex_lib ?W empty_state ?m1) \<noteq> error_reply"
    "snd (track ex_lib ?W first_tracked ?m2) \<noteq> error_reply"
    by code_simp+
  have sp: "split_ws (msg_text ?m1) = [''/track'', ''http://h/p1569'', ''5'']"
    "split_ws (msg_text ?m2) = [''/track'', ''http://h/p6288'', ''5'']"
    by code_simp+
  have c: "chat_id ?m1 = 1" "chat_id ?m2 = 1" by (simp_all add: track_message_def)
  from track_jobs[OF acc(1) sp(1)] obtain j1 where
    j1: "jobs first_tracked = (jobs empty_state)(''1_36f02f'' \<mapsto> j1)"
    unfolding first_tracked_def c ids by blast
  from track_jobs[OF acc(2) sp(2)] obtain j2 where
    j2: "jobs collide_state = (jobs first_tracked)(''1_36f02f'' \<mapsto> j2)"
      "job_url j2 = ''http://h/p6288''"
    unfolding collide_state_def c ids by blast
  have all: "jobs collide_state i = Some j \<Longrightarrow> job_url j = ''http://h/p6288''" for i j
    using j1 j2 by (auto simp: empty_state_def split: if_splits)
  have tr: "map_option interval (lookup (user_data collide_state) 1 ''http://h/p1569'') = Some 5"
    "map_option interval (lookup (user_data collide_state) 1 ''http://h/p6288'') = Some 5"
    by code_simp+
  have jb: "map_option job_url (jobs collide_state ''1_36f02f'') = Some ''http://h/p6288''"
    using j2 by simp
  have "\<not> exactly_one_job collide_state"
  proof
    assume "exactly_one_job collide_state"
    moreover from tr(1) have "lookup (user_data collide_state) 1 ''http://h/p1569'' \<noteq> None"
      by auto
    ultimately obtain i j where "jobs collide_state i = Some j" "job_url j = ''http://h/p1569''"
      unfolding exactly_one_job_def by blast
    with all show False by fastforce
  qed
  with ids tr jb show ?thesis by simp
qed

end
